theory Spec2Isabelle
  imports Main "HOL-Library.Multiset" "HOL-Library.Product_Lexorder"
begin

section \<open>JavaScript strings\<close>

text \<open>
  Strings are lists of 8-bit characters; the model covers ASCII text. \<open>String.prototype.trim\<close>
  removes white space at both ends (here the six ASCII white-space characters: space, tab,
  line feed, vertical tab, form feed, carriage return) and \<open>toLowerCase\<close> maps
  \<open>A\<close>..\<open>Z\<close> to \<open>a\<close>..\<open>z\<close>.
\<close>

definition isWhiteSpace :: "char \<Rightarrow> bool" where
  "isWhiteSpace c \<longleftrightarrow>
     c \<in> set [CHR '' '', CHR 0x09, CHR 0x0A, CHR 0x0B, CHR 0x0C, CHR 0x0D]"

definition trim :: "string \<Rightarrow> string" where
  "trim s = rev (dropWhile isWhiteSpace (rev (dropWhile isWhiteSpace s)))"

definition lowerChar :: "char \<Rightarrow> char" where
  "lowerChar c =
     (let n = (of_char c :: nat) in if 65 \<le> n \<and> n \<le> 90 then char_of (n + 32) else c)"

definition toLowerCase :: "string \<Rightarrow> string" where
  "toLowerCase s = map lowerChar s"

text \<open>
  \<open>status || "open"\<close>: \<open>null\<close>, \<open>undefined\<close> (both \<open>None\<close>) and the empty
  string are falsy and give the default.
\<close>

definition orDefault :: "string option \<Rightarrow> string \<Rightarrow> string" where
  "orDefault v d = (case v of None \<Rightarrow> d | Some s \<Rightarrow> if s = [] then d else s)"

section \<open>Status policy\<close>

subsection \<open>Feed screen with the onboarding gate (\<open>unnamed/part_001\<close>)\<close>

definition normStatus :: "string option \<Rightarrow> string" where
  "normStatus status = toLowerCase (trim (orDefault status ''open''))"

definition isResolvedStatus :: "string option \<Rightarrow> bool" where
  "isResolvedStatus status \<longleftrightarrow> normStatus status = ''resolved''"

definition isFollowupStatus :: "string option \<Rightarrow> bool" where
  "isFollowupStatus status \<longleftrightarrow> normStatus status = ''needs_followup''"

text \<open>The label the status pill renders: \<open>resolved ? "RESOLVED" : followup ? "FOLLOW-UP" : "OPEN"\<close>.\<close>

definition StatusPill :: "string option \<Rightarrow> string" where
  "StatusPill status =
     (let s = normStatus status;
          resolved = (s = ''resolved'');
          followup = (s = ''needs_followup'')
      in if resolved then ''RESOLVED'' else if followup then ''FOLLOW-UP'' else ''OPEN'')"

subsection \<open>Detail screen (\<open>unnamed/part_000\<close>)\<close>

definition isResolvedStatus_detail :: "string option \<Rightarrow> bool" where
  "isResolvedStatus_detail status =
     (let s = toLowerCase (trim (orDefault status ''open'')) in s = ''resolved'')"

subsection \<open>Feed screen without the gate (\<open>unnamed/part_002\<close>)\<close>

definition isResolvedStatus_feed2 :: "string option \<Rightarrow> bool" where
  "isResolvedStatus_feed2 status =
     (let s = toLowerCase (trim (orDefault status ''open'')) in s = ''resolved'')"

definition StatusPill_feed2 :: "string option \<Rightarrow> string" where
  "StatusPill_feed2 status =
     (let s = toLowerCase (trim (orDefault status ''open''));
          resolved = (s = ''resolved'');
          followup = (s = ''needs_followup'')
      in if resolved then ''RESOLVED'' else if followup then ''FOLLOW-UP'' else ''OPEN'')"

subsection \<open>Feed screen of \<open>src/app/page.tsx\<close>\<close>

text \<open>This screen does not trim, and counts the legacy value \<open>closed\<close> as resolved.\<close>

definition isResolvedStatus_page :: "string option \<Rightarrow> bool" where
  "isResolvedStatus_page status =
     (let s = toLowerCase (orDefault status ''open'') in s = ''resolved'' \<or> s = ''closed'')"

definition StatusPill_page :: "string option \<Rightarrow> string" where
  "StatusPill_page status =
     (let isClosed = isResolvedStatus_page status in if isClosed then ''RESOLVED'' else ''OPEN'')"

section \<open>Feed ordering policy\<close>

text \<open>
  A timestamp column reaches the screen as a string, and the screens only ever read it through
  \<open>new Date(s).getTime()\<close>. A timestamp is therefore represented by what \<open>Date\<close> makes of
  the string: the epoch milliseconds of a date, or an invalid date, whose \<open>getTime()\<close> is
  \<open>NaN\<close>.
\<close>

datatype jsnum = Num int | NaN

datatype timestamp = Instant int | Unparseable

fun getTime :: "timestamp \<Rightarrow> jsnum" where
  "getTime (Instant t) = Num t"
| "getTime Unparseable = NaN"

fun jsminus :: "jsnum \<Rightarrow> jsnum \<Rightarrow> jsnum" where
  "jsminus (Num a) (Num b) = Num (a - b)"
| "jsminus _ _ = NaN"

text \<open>\<open>HandoffRow\<close>; the field \<open>id\<close> is named \<open>id_h\<close>.\<close>

record handoff =
  id_h :: string
  created_at :: timestamp
  summary :: string
  category :: string
  priority :: string
  location_code :: "string option"
  status :: "string option"
  last_update_at :: "timestamp option"

text \<open>\<open>new Date(a.last_update_at ?? a.created_at).getTime()\<close>\<close>

definition effectiveTime :: "handoff \<Rightarrow> jsnum" where
  "effectiveTime a =
     getTime (case last_update_at a of None \<Rightarrow> created_at a | Some t \<Rightarrow> t)"

text \<open>
  The comparator handed to \<open>sort\<close>. All feed screens share its text and differ in the
  \<open>isResolvedStatus\<close> in scope, which is the first argument here.
\<close>

definition compareHandoffs :: "(string option \<Rightarrow> bool) \<Rightarrow> handoff \<Rightarrow> handoff \<Rightarrow> jsnum" where
  "compareHandoffs isRes a b =
     (let ar = isRes (status a); br = isRes (status b) in
      if ar \<noteq> br then (if ar then Num 1 else Num (- 1))
      else
        let at = effectiveTime a; bt = effectiveTime b in
        jsminus bt at)"

text \<open>
  \<open>Array.prototype.sort\<close> with a comparator: a \<open>NaN\<close> result counts as \<open>+0\<close>
  (ECMAScript \<open>SortCompare\<close>), and the sort is stable. The model is the stable insertion
  sort: an element goes in front of the first element it does not have to follow. For handoffs
  whose timestamps are dates the comparator is consistent, and every sorted and stable
  rearrangement of the input is this array (lemma \<open>array_sort_is_the_stable_sort\<close>), so the
  model is the engine's sort there. With a timestamp that is not a date the comparator returns
  \<open>NaN\<close>, it is not consistent, and ECMAScript leaves the order to the engine: on such a list
  the model is one possible engine, and the theorems on the feed order either assume that the
  timestamps are dates or rest only on comparisons across the two groups, which never return
  \<open>NaN\<close>.
\<close>

definition SortCompare :: "('a \<Rightarrow> 'a \<Rightarrow> jsnum) \<Rightarrow> 'a \<Rightarrow> 'a \<Rightarrow> int" where
  "SortCompare comparefn x y = (case comparefn x y of NaN \<Rightarrow> 0 | Num v \<Rightarrow> v)"

fun insertStable :: "('a \<Rightarrow> 'a \<Rightarrow> jsnum) \<Rightarrow> 'a \<Rightarrow> 'a list \<Rightarrow> 'a list" where
  "insertStable comparefn x [] = [x]"
| "insertStable comparefn x (y # ys) =
     (if SortCompare comparefn x y \<le> 0 then x # y # ys
      else y # insertStable comparefn x ys)"

definition array_sort :: "('a \<Rightarrow> 'a \<Rightarrow> jsnum) \<Rightarrow> 'a list \<Rightarrow> 'a list" where
  "array_sort comparefn xs = foldr (insertStable comparefn) xs []"

definition visibleHandoffs_with ::
  "(string option \<Rightarrow> bool) \<Rightarrow> bool \<Rightarrow> handoff list \<Rightarrow> handoff list" where
  "visibleHandoffs_with isRes showResolved handoffs =
     (let sorted = array_sort (compareHandoffs isRes) handoffs in
      if showResolved then sorted
      else filter (\<lambda>h. \<not> isRes (status h)) sorted)"

text \<open>\<open>visibleHandoffs\<close> of \<open>unnamed/part_001\<close>, \<open>unnamed/part_002\<close> and \<open>src/app/page.tsx\<close>.\<close>

definition visibleHandoffs :: "bool \<Rightarrow> handoff list \<Rightarrow> handoff list" where
  "visibleHandoffs = visibleHandoffs_with isResolvedStatus"

definition visibleHandoffs_feed2 :: "bool \<Rightarrow> handoff list \<Rightarrow> handoff list" where
  "visibleHandoffs_feed2 = visibleHandoffs_with isResolvedStatus_feed2"

definition visibleHandoffs_page :: "bool \<Rightarrow> handoff list \<Rightarrow> handoff list" where
  "visibleHandoffs_page = visibleHandoffs_with isResolvedStatus_page"

section \<open>Requests, responses and the hosted database\<close>

text \<open>
  A JSON value is kept as far as the handlers look at it: a string, or any other value with
  its truthiness and its \<open>String(v)\<close> rendering. A missing or \<open>null\<close> property is
  \<open>None\<close> in the lookup.
\<close>

datatype jval = JStr string | JOther bool string

fun truthy :: "jval option \<Rightarrow> bool" where
  "truthy None = False"
| "truthy (Some (JStr s)) = (s \<noteq> [])"
| "truthy (Some (JOther t r)) = t"

fun String_of :: "jval \<Rightarrow> string" where
  "String_of (JStr s) = s"
| "String_of (JOther t r) = r"

text \<open>\<open>a || b\<close> on property values\<close>

definition orElse :: "jval option \<Rightarrow> jval option \<Rightarrow> jval option" where
  "orElse a b = (if truthy a then a else b)"

text \<open>
  A request: its headers (names in lower case), and the body as each reader sees it:
  \<open>form\<close> holds the entries \<open>URLSearchParams\<close> makes of the text, \<open>json\<close> the own
  properties of the object \<open>req.json()\<close> returns, or \<open>Inl\<close> the message of the exception it
  throws.
\<close>

record request =
  headers :: "(string \<times> string) list"
  form :: "(string \<times> string) list"
  json :: "string + (string \<times> jval) list"

datatype resp_body = OkBody | OkSkipped | OkAlerted | ErrorBody string

record response =
  http_status :: nat
  resp_body :: resp_body

definition respond :: "nat \<Rightarrow> resp_body \<Rightarrow> response" where
  "respond c b = \<lparr>http_status = c, resp_body = b\<rparr>"

text \<open>\<open>e?.message || "Server error"\<close> in the handlers' \<open>catch\<close>\<close>

definition serverError :: "string \<Rightarrow> response" where
  "serverError e = respond 500 (ErrorBody (if e = [] then ''Server error'' else e))"

text \<open>\<open>String.prototype.includes\<close>\<close>

fun str_includes :: "string \<Rightarrow> string \<Rightarrow> bool" where
  "str_includes [] p = (p = [])"
| "str_includes (c # cs) p = (take (length p) (c # cs) = p \<or> str_includes cs p)"

text \<open>
  A row of \<open>handoff_updates\<close> as the handlers insert it (\<open>id\<close> and \<open>created_at\<close> are
  filled in by the database).
\<close>

record update_row =
  handoff_id :: string
  author_user_id :: "string option"
  author_display_name_snapshot :: "string option"
  source :: string
  message :: string

text \<open>
  The tables the handlers reach through the service-role client, which row-level security
  does not restrict. A statement either fails with the error message handed in as \<open>fault\<close>
  and changes nothing, or takes effect.
\<close>

record db =
  handoffs_tbl :: "handoff list"
  handoff_updates_tbl :: "update_row list"
  handoff_tokens_tbl :: "(string \<times> string) list"

definition insert_update :: "string option \<Rightarrow> update_row \<Rightarrow> db \<Rightarrow> string option \<times> db" where
  "insert_update fault row d =
     (case fault of
        Some e \<Rightarrow> (Some e, d)
      | None \<Rightarrow> (None, d\<lparr>handoff_updates_tbl := handoff_updates_tbl d @ [row]\<rparr>))"

definition update_status :: "string option \<Rightarrow> string \<Rightarrow> string \<Rightarrow> db \<Rightarrow> string option \<times> db" where
  "update_status fault i v d =
     (case fault of
        Some e \<Rightarrow> (Some e, d)
      | None \<Rightarrow>
          (None, d\<lparr>handoffs_tbl :=
             map (\<lambda>h. if id_h h = i then h\<lparr>status := Some v\<rparr> else h) (handoffs_tbl d)\<rparr>))"

text \<open>\<open>.select("handoff_id").eq("token", token).single()\<close>: an error unless exactly one row matches.\<close>

definition single_token :: "string option \<Rightarrow> string \<Rightarrow> db \<Rightarrow> string + string" where
  "single_token fault token d =
     (case fault of
        Some e \<Rightarrow> Inl e
      | None \<Rightarrow>
          (case filter (\<lambda>r. fst r = token) (handoff_tokens_tbl d) of
             [r] \<Rightarrow> Inr (snd r)
           | _ \<Rightarrow> Inl ''JSON object requested, multiple (or no) rows returned''))"

text \<open>\<open>if (webhookSecret) { const got = ...; if (!got || got !== webhookSecret) return 401 }\<close>\<close>

definition secretRejected :: "string option \<Rightarrow> request \<Rightarrow> bool" where
  "secretRejected webhookSecret req =
     (case webhookSecret of
        None \<Rightarrow> False
      | Some secret \<Rightarrow>
          if secret = [] then False
          else
            (case map_of (headers req) ''x-webhook-secret'' of
               None \<Rightarrow> True
             | Some got \<Rightarrow> got = [] \<or> got \<noteq> secret))"

definition contentType :: "request \<Rightarrow> string" where
  "contentType req = orDefault (map_of (headers req) ''content-type'') ''''"

subsection \<open>\<open>/api/sms/alert\<close> (\<open>src/app/api/sms/alert/route.ts\<close>)\<close>

text \<open>\<open>Object.fromEntries(params.entries())\<close>: the last entry of a name wins.\<close>

definition fromEntries :: "(string \<times> string) list \<Rightarrow> (string \<times> jval) list" where
  "fromEntries es = map (\<lambda>(k, v). (k, JStr v)) (rev es)"

definition sms_author :: "string option \<Rightarrow> string" where
  "sms_author from = (case from of None \<Rightarrow> ''sms'' | Some f \<Rightarrow> ''sms:'' @ f)"

definition POST_alert :: "string option \<Rightarrow> string option \<Rightarrow> request \<Rightarrow> db \<Rightarrow> response \<times> db" where
  "POST_alert webhookSecret fault req d =
     (if secretRejected webhookSecret req then (respond 401 (ErrorBody ''Unauthorized''), d)
      else
        (case (if str_includes (contentType req) ''application/json'' then json req
               else Inr (fromEntries (form req))) of
           Inl e \<Rightarrow> (serverError e, d)
         | Inr p \<Rightarrow>
             let hid = orElse (map_of p ''handoff_id'') (map_of p ''handoffId'');
                 from = orElse (orElse (map_of p ''from'') (map_of p ''From'')) None;
                 msg = orElse (map_of p ''message'') (map_of p ''Body'')
             in
               if \<not> truthy hid \<or> \<not> truthy msg then
                 (respond 400 (ErrorBody ''handoff_id and message are required''), d)
               else
                 (case insert_update fault
                     \<lparr>handoff_id = String_of (the hid),
                      author_user_id = None,
                      author_display_name_snapshot =
                        Some (sms_author (if truthy from then Some (String_of (the from)) else None)),
                      source = ''sms'',
                      message = trim (String_of (the msg))\<rparr> d of
                    (Some e, d') \<Rightarrow> (respond 400 (ErrorBody e), d')
                  | (None, d') \<Rightarrow> (respond 200 OkBody, d'))))"

subsection \<open>Token-addressed inbound relay (\<open>unnamed/part_004\<close>, first handler)\<close>

text \<open>
  \<open>body.match(/\bH:([A-Za-z0-9]{4,12})\b/)\<close>. A match starts at an \<open>H\<close> that no word
  character precedes, followed by \<open>:\<close> and a run of letters and digits; the greedy group
  takes the whole run, and shorter groups end inside the run, where there is no word boundary.
  So the position matches exactly when the run has 4 to 12 characters and no underscore
  follows it. \<open>scanToken prev s\<close> looks for the leftmost match in \<open>s\<close>, \<open>prev\<close> telling
  whether the character before \<open>s\<close> is a word character.
\<close>

definition isAlnum :: "char \<Rightarrow> bool" where
  "isAlnum c \<longleftrightarrow>
     (let n = (of_char c :: nat)
      in (48 \<le> n \<and> n \<le> 57) \<or> (65 \<le> n \<and> n \<le> 90) \<or> (97 \<le> n \<and> n \<le> 122))"

definition isWordChar :: "char \<Rightarrow> bool" where
  "isWordChar c \<longleftrightarrow> isAlnum c \<or> c = CHR ''_''"

definition tokenAt :: "string \<Rightarrow> string option" where
  "tokenAt s =
     (case s of
        h # colon # rest \<Rightarrow>
          if h = CHR ''H'' \<and> colon = CHR '':'' then
            (let run = takeWhile isAlnum rest; after = dropWhile isAlnum rest in
             if 4 \<le> length run \<and> length run \<le> 12 \<and> (after = [] \<or> \<not> isWordChar (hd after))
             then Some run else None)
          else None
      | _ \<Rightarrow> None)"

fun scanToken :: "bool \<Rightarrow> string \<Rightarrow> string option" where
  "scanToken prev [] = None"
| "scanToken prev (c # cs) =
     (case (if prev then None else tokenAt (c # cs)) of
        Some t \<Rightarrow> Some t
      | None \<Rightarrow> scanToken (isWordChar c) cs)"

definition extractToken :: "string \<Rightarrow> string option" where
  "extractToken body = scanToken False body"

text \<open>
  The first block of the handler: \<open>message\<close> and \<open>from\<close> as read from a form-encoded or a JSON
  body, or \<open>Inl\<close> the message of the exception \<open>req.json()\<close> throws.
\<close>

definition readRelayBody :: "request \<Rightarrow> string + string \<times> string option" where
  "readRelayBody req =
     (if str_includes (contentType req) ''application/x-www-form-urlencoded'' then
        Inr (orDefault (map_of (form req) ''Body'') '''',
             (case map_of (form req) ''From'' of
                None \<Rightarrow> None
              | Some f \<Rightarrow> if f = [] then None else Some f))
      else
        (case json req of
           Inl e \<Rightarrow> Inl e
         | Inr j \<Rightarrow>
             Inr (String_of (the (orElse (map_of j ''message'') (Some (JStr '''')))),
                  (if truthy (map_of j ''from'') then Some (String_of (the (map_of j ''from'')))
                   else None))))"

text \<open>
  \<open>mapFault\<close> and \<open>fault\<close> are the faults of the token lookup and of the insert. The handler
  reads no secret: neither the environment nor the \<open>x-webhook-secret\<close> header occurs in it.
\<close>

definition POST_relay :: "string option \<Rightarrow> string option \<Rightarrow> request \<Rightarrow> db \<Rightarrow> response \<times> db" where
  "POST_relay mapFault fault req d =
     (case readRelayBody req of
        Inl e \<Rightarrow> (serverError e, d)
      | Inr (message0, from) \<Rightarrow>
          let msg = trim message0;
              token = extractToken msg
          in
            (case token of
               None \<Rightarrow> (respond 400 (ErrorBody ''Missing token. Include e.g. H:ABC123 in reply.''), d)
             | Some tok \<Rightarrow>
                 (case single_token mapFault tok d of
                    Inl mapErr \<Rightarrow> (respond 404 (ErrorBody ''Unknown token.''), d)
                  | Inr hid \<Rightarrow>
                      if hid = [] then (respond 404 (ErrorBody ''Unknown token.''), d)
                      else
                        (case insert_update fault
                            \<lparr>handoff_id = hid,
                             author_user_id = None,
                             author_display_name_snapshot = Some (sms_author from),
                             source = ''sms'',
                             message = msg\<rparr> d of
                           (Some e, d') \<Rightarrow> (respond 400 (ErrorBody e), d')
                         | (None, d') \<Rightarrow> (respond 200 OkBody, d')))))"

subsection \<open>\<open>/api/sms/notify\<close> (\<open>unnamed/part_003\<close>)\<close>

text \<open>
  The audit message:
  \<open>`SYSTEM: SMS ALERT TRIGGERED (high)${location_code ? ` [${location_code}]` : ""}: ${String(summary || "").slice(0, 120)}`\<close>
\<close>

definition alertMessage :: "jval option \<Rightarrow> jval option \<Rightarrow> string" where
  "alertMessage loc summ =
     ''SYSTEM: SMS ALERT TRIGGERED (high)''
     @ (if truthy loc then '' ['' @ String_of (the loc) @ '']'' else '''')
     @ '': ''
     @ take 120 (String_of (the (orElse summ (Some (JStr '''')))))"

definition POST_notify :: "string option \<Rightarrow> string option \<Rightarrow> request \<Rightarrow> db \<Rightarrow> response \<times> db" where
  "POST_notify webhookSecret fault req d =
     (if secretRejected webhookSecret req then (respond 401 (ErrorBody ''Unauthorized''), d)
      else
        (case json req of
           Inl e \<Rightarrow> (serverError e, d)
         | Inr j \<Rightarrow>
             let hid = map_of j ''handoff_id'';
                 prio = map_of j ''priority''
             in
               if \<not> truthy hid \<or> \<not> truthy prio then
                 (respond 400 (ErrorBody ''handoff_id and priority are required''), d)
               else
                 let p = toLowerCase (String_of (the prio)) in
                 if p \<noteq> ''high'' then (respond 200 OkSkipped, d)
                 else
                   (case insert_update fault
                       \<lparr>handoff_id = String_of (the hid),
                        author_user_id = None,
                        author_display_name_snapshot = Some ''system'',
                        source = ''system'',
                        message = alertMessage (map_of j ''location_code'') (map_of j ''summary'')\<rparr> d of
                      (Some e, d') \<Rightarrow> (respond 400 (ErrorBody e), d')
                    | (None, d') \<Rightarrow> (respond 200 OkAlerted, d'))))"

subsection \<open>Server-side resolve handler (\<open>unnamed/part_004\<close>, second handler)\<close>

text \<open>
  \<open>auth.match(/^Bearer\s+(.+)$/i)\<close>: the word in any case, white space, and the rest of the
  header up to its end, which must hold no line terminator. The greedy \<open>\s+\<close> takes the
  whole run of white space; when nothing follows the run, it gives its last character back
  to the group.
\<close>

definition isLineTerminator :: "char \<Rightarrow> bool" where
  "isLineTerminator c \<longleftrightarrow> c = CHR 0x0A \<or> c = CHR 0x0D"

definition bearerToken :: "string \<Rightarrow> string option" where
  "bearerToken auth =
     (if toLowerCase (take 6 auth) = ''bearer'' then
        (let rest = drop 6 auth;
             ws = takeWhile isWhiteSpace rest;
             tok = dropWhile isWhiteSpace rest
         in
           if ws = [] then None
           else if tok \<noteq> [] then (if list_ex isLineTerminator tok then None else Some tok)
           else if 2 \<le> length ws \<and> \<not> isLineTerminator (last ws) then Some [last ws]
           else None)
      else None)"

text \<open>The signed-in user the identity provider returns for an access token.\<close>

record user =
  user_id :: string
  email :: "string option"

text \<open>
  \<open>getUser\<close> is the identity provider's answer to an access token (\<open>Inl\<close> its error);
  \<open>updFault\<close> and \<open>insFault\<close> are the faults of the two statements. A failing statement
  throws, and the \<open>catch\<close> answers 500.
\<close>

definition POST_resolve ::
  "(string \<Rightarrow> string + user option) \<Rightarrow> string option \<Rightarrow> string option \<Rightarrow> request \<Rightarrow> db
   \<Rightarrow> response \<times> db" where
  "POST_resolve getUser updFault insFault req d =
     (case bearerToken (orDefault (map_of (headers req) ''authorization'') '''') of
        None \<Rightarrow> (respond 401 (ErrorBody ''Missing bearer token''), d)
      | Some accessToken \<Rightarrow>
          (case getUser accessToken of
             Inl userErr \<Rightarrow> (respond 401 (ErrorBody ''Invalid session''), d)
           | Inr None \<Rightarrow> (respond 401 (ErrorBody ''Invalid session''), d)
           | Inr (Some u) \<Rightarrow>
               (case json req of
                  Inl e \<Rightarrow> (serverError e, d)
                | Inr j \<Rightarrow>
                    let hid = map_of j ''handoff_id'' in
                    if \<not> truthy hid then (respond 400 (ErrorBody ''handoff_id required''), d)
                    else
                      (case update_status updFault (String_of (the hid)) ''closed'' d of
                         (Some updErr, d1) \<Rightarrow> (serverError updErr, d1)
                       | (None, d1) \<Rightarrow>
                           (case insert_update insFault
                               \<lparr>handoff_id = String_of (the hid),
                                author_user_id = None,
                                author_display_name_snapshot = Some ''system'',
                                source = ''system'',
                                message = ''SYSTEM: RESOLVED by ''
                                  @ (case email u of None \<Rightarrow> user_id u | Some m \<Rightarrow> m)\<rparr> d1 of
                              (Some insErr, d2) \<Rightarrow> (serverError insErr, d2)
                            | (None, d2) \<Rightarrow> (respond 200 OkBody, d2))))))"

section \<open>Screens\<close>

text \<open>
  A screen function reads and writes the component state and talks to the backend. The
  answers of the backend are arguments, in the order the function awaits them; the function
  returns the new state and the requests and navigations it issued, in order.
\<close>

record 'a reply =
  data :: "'a option"
  error :: "string option"

datatype effect =
    GetSession
  | SelectProfile string
  | SelectHandoffs
  | SelectHandoff string
  | SelectUpdates string
  | UpdateHandoff string string timestamp "string list"
  | RouterPush string

record profile =
  display_name :: "string option"
  shift :: "string option"

record feed_state =
  sessionEmail :: "string option"
  userId :: "string option"
  loading :: bool
  errorMsg :: "string option"
  handoffs :: "handoff list"

text \<open>\<open>sessData.session?.user?.id ?? null\<close> followed by \<open>if (!uid)\<close>\<close>

definition uidOf :: "user option \<Rightarrow> string option" where
  "uidOf u = (case u of None \<Rightarrow> None | Some x \<Rightarrow> Some (user_id x))"

definition emailOf :: "user option \<Rightarrow> string option" where
  "emailOf u = (case u of None \<Rightarrow> None | Some x \<Rightarrow> email x)"

subsection \<open>Feed with the onboarding gate (\<open>unnamed/part_001\<close>)\<close>

definition loadSessionAndFeed ::
  "feed_state \<Rightarrow> user reply \<Rightarrow> profile reply \<Rightarrow> handoff list reply \<Rightarrow> feed_state \<times> effect list" where
  "loadSessionAndFeed st sess profR feedR =
     (let st1 = st\<lparr>errorMsg := None, loading := True\<rparr> in
      case error sess of
        Some e \<Rightarrow> (st1\<lparr>errorMsg := Some e, loading := False\<rparr>, [GetSession])
      | None \<Rightarrow>
          let uid = uidOf (data sess);
              st2 = st1\<lparr>sessionEmail := emailOf (data sess), userId := uid\<rparr>
          in
            if orDefault uid '''' = [] then
              (st2\<lparr>handoffs := [], loading := False\<rparr>, [GetSession])
            else
              (case error profR of
                 Some e \<Rightarrow>
                   (st2\<lparr>errorMsg := Some e, loading := False\<rparr>, [GetSession, SelectProfile (the uid)])
               | None \<Rightarrow>
                   let dn = trim (orDefault (case data profR of None \<Rightarrow> None | Some p \<Rightarrow> display_name p) '''');
                       sh = trim (orDefault (case data profR of None \<Rightarrow> None | Some p \<Rightarrow> shift p) '''')
                   in
                     if dn = [] \<or> sh = [] then
                       (st2\<lparr>loading := False\<rparr>,
                        [GetSession, SelectProfile (the uid), RouterPush ''/onboarding''])
                     else
                       (case error feedR of
                          Some e \<Rightarrow>
                            (st2\<lparr>errorMsg := Some e, loading := False\<rparr>,
                             [GetSession, SelectProfile (the uid), SelectHandoffs])
                        | None \<Rightarrow>
                            (st2\<lparr>handoffs := (case data feedR of None \<Rightarrow> [] | Some hs \<Rightarrow> hs),
                                 loading := False\<rparr>,
                             [GetSession, SelectProfile (the uid), SelectHandoffs]))))"

subsection \<open>Feed of \<open>src/app/page.tsx\<close> and of \<open>unnamed/part_002\<close>\<close>

text \<open>The two files have the same \<open>loadSessionAndFeed\<close>; it does not read the profile.\<close>

definition loadSessionAndFeed_page ::
  "feed_state \<Rightarrow> user reply \<Rightarrow> handoff list reply \<Rightarrow> feed_state \<times> effect list" where
  "loadSessionAndFeed_page st sess feedR =
     (let st1 = st\<lparr>errorMsg := None, loading := True\<rparr> in
      case error sess of
        Some e \<Rightarrow> (st1\<lparr>errorMsg := Some e, loading := False\<rparr>, [GetSession])
      | None \<Rightarrow>
          let uid = uidOf (data sess);
              st2 = st1\<lparr>sessionEmail := emailOf (data sess), userId := uid\<rparr>
          in
            if orDefault uid '''' = [] then
              (st2\<lparr>handoffs := [], loading := False\<rparr>, [GetSession])
            else
              (case error feedR of
                 Some e \<Rightarrow>
                   (st2\<lparr>errorMsg := Some e, loading := False\<rparr>, [GetSession, SelectHandoffs])
               | None \<Rightarrow>
                   (st2\<lparr>handoffs := (case data feedR of None \<Rightarrow> [] | Some hs \<Rightarrow> hs),
                        loading := False\<rparr>,
                    [GetSession, SelectHandoffs])))"

subsection \<open>Detail screen (\<open>unnamed/part_000\<close>)\<close>

record detail_state =
  loading_d :: bool
  errorMsg_d :: "string option"
  handoff_d :: "handoff option"
  updates_d :: "update_row list"
  resolving_d :: bool
  toast_d :: "string option"

text \<open>\<open>load\<close>; \<open>ident\<close> is the route parameter \<open>id\<close>.\<close>

definition load ::
  "string option \<Rightarrow> detail_state \<Rightarrow> user reply \<Rightarrow> handoff reply \<Rightarrow> update_row list reply
   \<Rightarrow> detail_state \<times> effect list" where
  "load ident st sess hR uR =
     (if orDefault ident '''' = [] then (st, [])
      else
        let i = the ident;
            st1 = st\<lparr>loading_d := True, errorMsg_d := None\<rparr>
        in
          if orDefault (uidOf (data sess)) '''' = [] then
            (st1\<lparr>errorMsg_d := Some ''Not signed in.'', loading_d := False\<rparr>, [GetSession])
          else
            (case error hR of
               Some e \<Rightarrow>
                 (st1\<lparr>errorMsg_d := Some e, loading_d := False\<rparr>, [GetSession, SelectHandoff i])
             | None \<Rightarrow>
                 (case error uR of
                    Some e \<Rightarrow>
                      (st1\<lparr>errorMsg_d := Some e, loading_d := False\<rparr>,
                       [GetSession, SelectHandoff i, SelectUpdates i])
                  | None \<Rightarrow>
                      (st1\<lparr>handoff_d := data hR,
                           updates_d := (case data uR of None \<Rightarrow> [] | Some us \<Rightarrow> us),
                           loading_d := False\<rparr>,
                       [GetSession, SelectHandoff i, SelectUpdates i]))))"

definition zeroRowsMessage :: string where
  "zeroRowsMessage =
     ''0 rows updated. RLS is blocking UPDATE on handoffs. Fix Supabase policy for UPDATE.''"

text \<open>The toast \<open>"\<dots> Marked resolved."\<close>; the check mark is its three UTF-8 bytes.\<close>

definition resolvedToast :: string where
  "resolvedToast = [CHR 0xE2, CHR 0x9C, CHR 0x85] @ '' Marked resolved.''"

text \<open>
  \<open>markResolved\<close>; \<open>t\<close> is the clock read by \<open>new Date()\<close>, \<open>updR\<close> the answer to the
  \<open>update(\<dots>).eq("id", \<dots>).select("id, status, last_update_at")\<close>, the other answers are those
  the final \<open>load()\<close> awaits.
\<close>

definition markResolved ::
  "string option \<Rightarrow> detail_state \<Rightarrow> int \<Rightarrow> handoff list reply \<Rightarrow> user reply \<Rightarrow> handoff reply
   \<Rightarrow> update_row list reply \<Rightarrow> detail_state \<times> effect list" where
  "markResolved ident st t updR sess hR uR =
     (let st1 = st\<lparr>toast_d := None, errorMsg_d := None\<rparr> in
      case handoff_d st of
        None \<Rightarrow> (st1, [])
      | Some h \<Rightarrow>
          if id_h h = [] then (st1, [])
          else
            let st2 = st1\<lparr>resolving_d := True\<rparr>;
                now = Instant t;
                req = UpdateHandoff (id_h h) ''resolved'' now [''id'', ''status'', ''last_update_at'']
            in
              (case error updR of
                 Some e \<Rightarrow> (st2\<lparr>errorMsg_d := Some e, resolving_d := False\<rparr>, [req])
               | None \<Rightarrow>
                   (case data updR of
                      None \<Rightarrow> (st2\<lparr>errorMsg_d := Some zeroRowsMessage, resolving_d := False\<rparr>, [req])
                    | Some [] \<Rightarrow>
                        (st2\<lparr>errorMsg_d := Some zeroRowsMessage, resolving_d := False\<rparr>, [req])
                    | Some (updated # rest) \<Rightarrow>
                        let st3 = st2\<lparr>handoff_d :=
                                     Some (h\<lparr>status := status updated,
                                              last_update_at := last_update_at updated\<rparr>),
                                   toast_d := Some resolvedToast\<rparr>;
                            (st4, tr) = load ident st3 sess hR uR
                        in (st4\<lparr>resolving_d := False\<rparr>, req # tr))))"

text \<open>
  The button \<open>Mark Resolved\<close>: rendered when \<open>!loading && handoff\<close>, and
  \<open>disabled={resolving || resolvedNow}\<close> with
  \<open>resolvedNow = isResolvedStatus(handoff?.status)\<close>. A click on a disabled or absent
  button does nothing.
\<close>

definition resolveDisabled :: "detail_state \<Rightarrow> bool" where
  "resolveDisabled st \<longleftrightarrow>
     loading_d st \<or> handoff_d st = None \<or> resolving_d st
     \<or> isResolvedStatus_detail (case handoff_d st of None \<Rightarrow> None | Some h \<Rightarrow> status h)"

definition clickMarkResolved ::
  "string option \<Rightarrow> detail_state \<Rightarrow> int \<Rightarrow> handoff list reply \<Rightarrow> user reply \<Rightarrow> handoff reply
   \<Rightarrow> update_row list reply \<Rightarrow> detail_state \<times> effect list" where
  "clickMarkResolved ident st t updR sess hR uR =
     (if resolveDisabled st then (st, []) else markResolved ident st t updR sess hR uR)"

text \<open>
  The backend behind the screen's client, as far as \<open>markResolved\<close> sees it: the
  \<open>handoffs\<close> table under row-level security. An \<open>UPDATE\<close> that the policy forbids for
  the actor changes nothing and returns no rows, without an error; otherwise the rows with the
  given id are updated and returned.
\<close>

definition backend_update ::
  "bool \<Rightarrow> string option \<Rightarrow> string \<Rightarrow> string \<Rightarrow> timestamp \<Rightarrow> handoff list
   \<Rightarrow> handoff list reply \<times> handoff list" where
  "backend_update rlsAllows fault i v now rows =
     (case fault of
        Some e \<Rightarrow> (\<lparr>data = None, error = Some e\<rparr>, rows)
      | None \<Rightarrow>
          if \<not> rlsAllows then (\<lparr>data = Some [], error = None\<rparr>, rows)
          else
            let rows' = map (\<lambda>h. if id_h h = i then h\<lparr>status := Some v, last_update_at := Some now\<rparr>
                                  else h) rows
            in (\<lparr>data = Some (filter (\<lambda>h. id_h h = i) rows'), error = None\<rparr>, rows'))"

text \<open>\<open>.eq("id", id).single()\<close> on the table\<close>

definition backend_single :: "string \<Rightarrow> handoff list \<Rightarrow> handoff reply" where
  "backend_single i rows =
     (case filter (\<lambda>h. id_h h = i) rows of
        [h] \<Rightarrow> \<lparr>data = Some h, error = None\<rparr>
      | _ \<Rightarrow> \<lparr>data = None, error = Some ''JSON object requested, multiple (or no) rows returned''\<rparr>)"

text \<open>
  A click on the button against that backend: the answers are those the backend gives to the
  requests of \<open>markResolved\<close>, the read of the handoff coming after the write.
\<close>

definition resolveOnBackend ::
  "bool \<Rightarrow> string option \<Rightarrow> handoff list \<Rightarrow> string option \<Rightarrow> detail_state \<Rightarrow> int \<Rightarrow> user reply
   \<Rightarrow> update_row list reply \<Rightarrow> (detail_state \<times> effect list) \<times> handoff list" where
  "resolveOnBackend rlsAllows fault rows ident st t sess uR =
     (let (updR, rows') = backend_update rlsAllows fault
                            (case handoff_d st of None \<Rightarrow> [] | Some h \<Rightarrow> id_h h)
                            ''resolved'' (Instant t) rows;
          out = clickMarkResolved ident st t updR sess
                  (backend_single (orDefault ident '''') rows') uR
      in (out, if snd out = [] then rows else rows'))"

section \<open>Auxiliary definitions\<close>

text \<open>
  Not part of the program: the key by which the comparator orders handoffs whose timestamps are
  dates (the group first, then the negated time), used to compare the model of \<open>sort\<close> with the
  library's stable sort.
\<close>

definition sortKey :: "(string option \<Rightarrow> bool) \<Rightarrow> handoff \<Rightarrow> bool \<times> int" where
  "sortKey isRes h = (isRes (status h), (case effectiveTime h of Num t \<Rightarrow> - t | NaN \<Rightarrow> 0))"

section \<open>Example data\<close>

text \<open>An example feed: a resolved handoff, and two open ones, one of them never updated.\<close>

definition feedExample :: "handoff list" where
  "feedExample =
     [\<lparr>id_h = ''a'', created_at = Instant 10, summary = ''pump alarm'', category = ''equipment'',
       priority = ''high'', location_code = Some ''ICU'', status = Some ''resolved'',
       last_update_at = Some (Instant 50)\<rparr>,
      \<lparr>id_h = ''b'', created_at = Instant 20, summary = ''bed rail'', category = ''equipment'',
       priority = ''low'', location_code = None, status = Some ''open'',
       last_update_at = None\<rparr>,
      \<lparr>id_h = ''c'', created_at = Instant 5, summary = ''lab pending'', category = ''labs'',
       priority = ''medium'', location_code = None, status = None,
       last_update_at = Some (Instant 30)\<rparr>]"

text \<open>A database holding the example feed, a token mapping and no updates yet.\<close>

definition resolveDb :: db where
  "resolveDb =
     \<lparr>handoffs_tbl = feedExample, handoff_updates_tbl = [],
      handoff_tokens_tbl = [(''AB12'', ''b'')]\<rparr>"

text \<open>A signed-in user, the identity provider that knows the token, and a resolve request.\<close>

definition resolveUser :: user where
  "resolveUser = \<lparr>user_id = ''u-1'', email = Some ''rn@ward.example''\<rparr>"

definition resolveGetUser :: "string \<Rightarrow> string + user option" where
  "resolveGetUser tok = (if tok = ''tok-1'' then Inr (Some resolveUser) else Inl ''invalid JWT'')"

definition resolveRequest :: request where
  "resolveRequest =
     \<lparr>headers = [(''authorization'', ''Bearer tok-1''), (''content-type'', ''application/json'')],
      form = [],
      json = Inr [(''handoff_id'', JStr ''b'')]\<rparr>"


text \<open>Requests to the relays: an SMS reply as the carrier posts it, without the secret header.\<close>

definition smsReply :: "string \<Rightarrow> request" where
  "smsReply body =
     \<lparr>headers = [(''content-type'', ''application/x-www-form-urlencoded'')],
      form = [(''From'', ''+15551234567''), (''Body'', body)],
      json = Inl ''Unexpected token''\<rparr>"

text \<open>Requests to the alert audit: a JSON body with the given priority, and the secret header.\<close>

definition notifyRequest :: "string \<Rightarrow> request" where
  "notifyRequest prio =
     \<lparr>headers = [(''content-type'', ''application/json''), (''x-webhook-secret'', ''s3cret'')],
      form = [],
      json = Inr [(''handoff_id'', JStr ''b''), (''summary'', JStr ''bed rail loose''),
                  (''priority'', JStr prio), (''location_code'', JStr ''4W'')]\<rparr>"

text \<open>
  A feed screen that has not loaded yet, the session of the signed-in example user, a profile
  row with a blank display name and no shift, and the backend's answer to the feed query.
\<close>

definition feedState0 :: feed_state where
  "feedState0 =
     \<lparr>sessionEmail = None, userId = None, loading = True, errorMsg = None, handoffs = []\<rparr>"

definition sessionReply :: "user reply" where
  "sessionReply = \<lparr>data = Some resolveUser, error = None\<rparr>"

definition incompleteProfile :: "profile reply" where
  "incompleteProfile = \<lparr>data = Some \<lparr>display_name = Some ''  '', shift = None\<rparr>, error = None\<rparr>"

definition feedReply :: "handoff list reply" where
  "feedReply = \<lparr>data = Some feedExample, error = None\<rparr>"

text \<open>The detail screen showing the open handoff \<open>b\<close> of the example feed.\<close>

definition handoffB :: handoff where
  "handoffB =
     \<lparr>id_h = ''b'', created_at = Instant 20, summary = ''bed rail'', category = ''equipment'',
      priority = ''low'', location_code = None, status = Some ''open'', last_update_at = None\<rparr>"

definition detailState0 :: detail_state where
  "detailState0 =
     \<lparr>loading_d = False, errorMsg_d = None, handoff_d = Some handoffB, updates_d = [],
      resolving_d = False, toast_d = None\<rparr>"

definition updatesReply :: "update_row list reply" where
  "updatesReply = \<lparr>data = Some [], error = None\<rparr>"

section \<open>Properties of the status policy\<close>

lemma trim_open: "trim ''open'' = ''open''"
  by code_simp

lemma StatusPill_label: "StatusPill s \<in> {''OPEN'', ''FOLLOW-UP'', ''RESOLVED''}"
  by (simp add: StatusPill_def Let_def)

lemma StatusPill_resolved: "(StatusPill s = ''RESOLVED'') = isResolvedStatus s"
  by (simp add: StatusPill_def isResolvedStatus_def Let_def)

lemma StatusPill_followup: "(StatusPill s = ''FOLLOW-UP'') = isFollowupStatus s"
  by (auto simp add: StatusPill_def isFollowupStatus_def Let_def)

lemma StatusPill_open:
  "(StatusPill s = ''OPEN'') = (normStatus s \<noteq> ''resolved'' \<and> normStatus s \<noteq> ''needs_followup'')"
  by (auto simp add: StatusPill_def Let_def)

lemma StatusPill_samples:
  "StatusPill None = ''OPEN''"
  "StatusPill (Some '''') = ''OPEN''"
  "StatusPill (Some ''OPEN'') = ''OPEN''"
  "StatusPill (Some ''bogus'') = ''OPEN''"
  "StatusPill (Some '' Resolved '') = ''RESOLVED''"
  "StatusPill (Some ''needs_followup'') = ''FOLLOW-UP''"
  by code_simp+

lemma canonical_screens_agree:
  "isResolvedStatus_detail s = isResolvedStatus s"
  "isResolvedStatus_feed2 s = isResolvedStatus s"
  "StatusPill_feed2 s = StatusPill s"
  by (simp_all add: isResolvedStatus_detail_def isResolvedStatus_feed2_def isResolvedStatus_def
      normStatus_def StatusPill_feed2_def StatusPill_def)

lemma page_policy_trimmed:
  assumes "trim x = x"
  shows "isResolvedStatus_page (Some x) = (isResolvedStatus (Some x) \<or> normStatus (Some x) = ''closed'')"
proof (cases "x = []")
  case True
  then show ?thesis
    by (simp add: isResolvedStatus_page_def isResolvedStatus_def normStatus_def orDefault_def
        trim_open Let_def)
next
  case False
  with assms show ?thesis
    by (simp add: isResolvedStatus_page_def isResolvedStatus_def normStatus_def orDefault_def
        Let_def)
qed

lemma page_policy_absent: "isResolvedStatus_page None = isResolvedStatus None"
  by code_simp

text \<open>
  C1, as amended. For every raw status (a string or absent) the policy of the detail screen and of
  the two feeds that trim (parts 000, 001, 002) normalises by trimming and lower-casing, with
  \<open>open\<close> for an absent or empty value, and puts the value in exactly one of the classes open,
  needs_followup, resolved: the label is one of three, it is \<open>RESOLVED\<close> exactly for a
  normal form \<open>resolved\<close>, \<open>FOLLOW-UP\<close> exactly for \<open>needs_followup\<close>, and \<open>OPEN\<close> for
  everything else. Absent, empty, \<open>OPEN\<close> and \<open>bogus\<close> are open and \<open> Resolved \<close> is resolved.
  These three screens agree on every input. The feed of \<open>src/app/page.tsx\<close> has its own
  policy: on an absent status, and on a status without white space around it, it holds a
  handoff resolved when the three do or when the normal form is \<open>closed\<close>.
\<close>

theorem status_policy_classification:
  "normStatus s = toLowerCase (trim (orDefault s ''open''))
   \<and> StatusPill s \<in> {''OPEN'', ''FOLLOW-UP'', ''RESOLVED''}
   \<and> (StatusPill s = ''RESOLVED'') = (normStatus s = ''resolved'')
   \<and> (StatusPill s = ''FOLLOW-UP'') = (normStatus s = ''needs_followup'')
   \<and> (StatusPill s = ''OPEN'') = (normStatus s \<noteq> ''resolved'' \<and> normStatus s \<noteq> ''needs_followup'')
   \<and> isResolvedStatus s = (StatusPill s = ''RESOLVED'')
   \<and> isFollowupStatus s = (StatusPill s = ''FOLLOW-UP'')
   \<and> StatusPill None = ''OPEN''
   \<and> StatusPill (Some '''') = ''OPEN''
   \<and> StatusPill (Some ''OPEN'') = ''OPEN''
   \<and> StatusPill (Some ''bogus'') = ''OPEN''
   \<and> StatusPill (Some '' Resolved '') = ''RESOLVED''
   \<and> StatusPill (Some ''needs_followup'') = ''FOLLOW-UP''
   \<and> isResolvedStatus_detail s = isResolvedStatus s
   \<and> isResolvedStatus_feed2 s = isResolvedStatus s
   \<and> StatusPill_feed2 s = StatusPill s
   \<and> isResolvedStatus_page None = isResolvedStatus None
   \<and> (\<forall>x. s = Some x \<and> trim x = x \<longrightarrow>
         isResolvedStatus_page s = (isResolvedStatus s \<or> normStatus s = ''closed''))"
proof -
  have "\<forall>x. s = Some x \<and> trim x = x \<longrightarrow>
         isResolvedStatus_page s = (isResolvedStatus s \<or> normStatus s = ''closed'')"
    using page_policy_trimmed by blast
  moreover have "normStatus s = toLowerCase (trim (orDefault s ''open''))"
    by (simp add: normStatus_def)
  moreover have "(StatusPill s = ''RESOLVED'') = (normStatus s = ''resolved'')"
    using StatusPill_resolved [of s] by (simp add: isResolvedStatus_def)
  moreover have "(StatusPill s = ''FOLLOW-UP'') = (normStatus s = ''needs_followup'')"
    using StatusPill_followup [of s] by (simp add: isFollowupStatus_def)
  ultimately show ?thesis
    using StatusPill_label [of s] StatusPill_resolved [of s] StatusPill_followup [of s]
      StatusPill_open [of s] StatusPill_samples canonical_screens_agree [of s] page_policy_absent
    by blast
qed

theorem status_policy_classification_witness:
  "trim ''Closed'' = ''Closed''
   \<and> isResolvedStatus_page (Some ''Closed'')
       = (isResolvedStatus (Some ''Closed'') \<or> normStatus (Some ''Closed'') = ''closed'')
   \<and> StatusPill (Some ''Closed'') = ''OPEN''"
proof -
  have t: "trim ''Closed'' = ''Closed''" by code_simp
  have n: "normStatus (Some ''Closed'') = ''closed''" by code_simp
  from status_policy_classification [of "Some ''Closed''"] t n show ?thesis by simp
qed

text \<open>
  C1 as stated fails: the policies are not the same on every screen. The stored value
  \<open>closed\<close> is open for the feed with the onboarding gate and resolved for the feed of
  \<open>src/app/page.tsx\<close>.
\<close>

theorem status_policy_screens_differ:
  "StatusPill (Some ''closed'') = ''OPEN'' \<and> \<not> isResolvedStatus (Some ''closed'')
   \<and> StatusPill_page (Some ''closed'') = ''RESOLVED'' \<and> isResolvedStatus_page (Some ''closed'')"
  by code_simp

section \<open>Properties of the feed ordering\<close>

lemma set_insertStable: "set (insertStable f x ys) = insert x (set ys)"
  by (induction ys) auto

lemma set_array_sort: "set (array_sort f xs) = set xs"
  by (induction xs) (auto simp: array_sort_def set_insertStable)

lemma length_insertStable: "length (insertStable f x ys) = Suc (length ys)"
  by (induction ys) auto

lemma length_array_sort: "length (array_sort f xs) = length xs"
  by (induction xs) (auto simp: array_sort_def length_insertStable)

lemma successively_tl: "successively P (y # ys) \<Longrightarrow> successively P ys"
  by (cases ys) auto

lemma successively_insertStable:
  assumes total: "\<And>a b. SortCompare f a b \<le> 0 \<or> SortCompare f b a \<le> 0"
  shows "successively (\<lambda>a b. SortCompare f a b \<le> 0) ys \<Longrightarrow>
         successively (\<lambda>a b. SortCompare f a b \<le> 0) (insertStable f x ys)"
proof (induction ys)
  case Nil
  then show ?case by simp
next
  case (Cons y ys)
  show ?case
  proof (cases "SortCompare f x y \<le> 0")
    case True
    with Cons.prems show ?thesis by simp
  next
    case False
    then have yx: "SortCompare f y x \<le> 0" using total by blast
    have tl: "successively (\<lambda>a b. SortCompare f a b \<le> 0) (insertStable f x ys)"
      using Cons.IH successively_tl [OF Cons.prems] by simp
    show ?thesis
    proof (cases ys)
      case Nil
      with False yx show ?thesis by simp
    next
      case (Cons z zs)
      with False yx tl Cons.prems show ?thesis by auto
    qed
  qed
qed

lemma successively_array_sort:
  assumes total: "\<And>a b. SortCompare f a b \<le> 0 \<or> SortCompare f b a \<le> 0"
  shows "successively (\<lambda>a b. SortCompare f a b \<le> 0) (array_sort f xs)"
proof (induction xs)
  case Nil
  then show ?case by (simp add: array_sort_def)
next
  case (Cons x xs)
  then show ?case
    using successively_insertStable [OF total] by (simp add: array_sort_def)
qed

lemma array_sort_fixed:
  "successively (\<lambda>a b. SortCompare f a b \<le> 0) xs \<Longrightarrow> array_sort f xs = xs"
proof (induction xs)
  case Nil
  then show ?case by (simp add: array_sort_def)
next
  case (Cons x xs)
  have "array_sort f xs = xs"
    using Cons.IH successively_tl [OF Cons.prems] by simp
  moreover have "insertStable f x xs = x # xs"
    using Cons.prems by (cases xs) auto
  ultimately show ?case by (simp add: array_sort_def)
qed

text \<open>The comparator: it is total; it orders the groups; within a group it orders by time.\<close>

lemma compare_total:
  "SortCompare (compareHandoffs isRes) a b \<le> 0 \<or> SortCompare (compareHandoffs isRes) b a \<le> 0"
  by (cases "effectiveTime a"; cases "effectiveTime b")
     (auto simp: SortCompare_def compareHandoffs_def Let_def)

lemma compare_resolved_right:
  "SortCompare (compareHandoffs isRes) a b \<le> 0 \<Longrightarrow> isRes (status a) \<Longrightarrow> isRes (status b)"
  by (auto simp: SortCompare_def compareHandoffs_def Let_def split: if_splits)

lemma compare_resolved_left:
  "\<not> SortCompare (compareHandoffs isRes) a b \<le> 0 \<Longrightarrow> isRes (status b) \<Longrightarrow> isRes (status a)"
  by (auto simp: SortCompare_def compareHandoffs_def Let_def split: if_splits)

lemma compare_times:
  "SortCompare (compareHandoffs isRes) a b \<le> 0 \<Longrightarrow> isRes (status a) = isRes (status b) \<Longrightarrow>
   effectiveTime a = Num ta \<Longrightarrow> effectiveTime b = Num tb \<Longrightarrow> tb \<le> ta"
  by (auto simp: SortCompare_def compareHandoffs_def Let_def split: if_splits)

lemma compare_trans:
  assumes "effectiveTime a \<noteq> NaN" "effectiveTime b \<noteq> NaN" "effectiveTime c \<noteq> NaN"
    and ab: "SortCompare (compareHandoffs isRes) a b \<le> 0"
    and bc: "SortCompare (compareHandoffs isRes) b c \<le> 0"
  shows "SortCompare (compareHandoffs isRes) a c \<le> 0"
proof -
  obtain ta tb tc where t: "effectiveTime a = Num ta" "effectiveTime b = Num tb" "effectiveTime c = Num tc"
    using assms(1-3) by (cases "effectiveTime a"; cases "effectiveTime b"; cases "effectiveTime c") auto
  show ?thesis
  proof (cases "isRes (status a) = isRes (status c)")
    case True
    show ?thesis
    proof (cases "isRes (status a) = isRes (status b)")
      case same: True
      with True have "isRes (status b) = isRes (status c)" by simp
      from compare_times [OF ab same t(1) t(2)] compare_times [OF bc this t(2) t(3)]
      have "tc \<le> ta" by simp
      with True t show ?thesis by (simp add: SortCompare_def compareHandoffs_def Let_def)
    next
      case False
      with True compare_resolved_right [OF ab] compare_resolved_right [OF bc]
      show ?thesis by blast
    qed
  next
    case False
    with compare_resolved_right [OF ab] compare_resolved_right [OF bc]
    have "\<not> isRes (status a)" by blast
    with False show ?thesis by (simp add: SortCompare_def compareHandoffs_def Let_def)
  qed
qed

lemma partition_insertStable:
  assumes "sorted_wrt (\<lambda>a b. isRes (status a) \<longrightarrow> isRes (status b)) ys"
  shows "sorted_wrt (\<lambda>a b. isRes (status a) \<longrightarrow> isRes (status b))
     (insertStable (compareHandoffs isRes) x ys)"
  using assms
proof (induction ys)
  case Nil
  show ?case by simp
next
  case (Cons y ys)
  have tl: "sorted_wrt (\<lambda>a b. isRes (status a) \<longrightarrow> isRes (status b)) ys"
    and hd: "\<forall>z\<in>set ys. isRes (status y) \<longrightarrow> isRes (status z)"
    using Cons.prems unfolding sorted_wrt.simps by blast+
  show ?case
  proof (cases "SortCompare (compareHandoffs isRes) x y \<le> 0")
    case True
    then have eq: "insertStable (compareHandoffs isRes) x (y # ys) = x # y # ys"
      by (simp only: insertStable.simps if_True)
    have "\<forall>z\<in>set (y # ys). isRes (status x) \<longrightarrow> isRes (status z)"
      using compare_resolved_right [OF True] hd unfolding list.set by blast
    with Cons.prems show ?thesis unfolding eq sorted_wrt.simps by blast
  next
    case False
    then have eq: "insertStable (compareHandoffs isRes) x (y # ys)
        = y # insertStable (compareHandoffs isRes) x ys"
      by (simp only: insertStable.simps if_False)
    have "\<forall>z\<in>set (insertStable (compareHandoffs isRes) x ys). isRes (status y) \<longrightarrow> isRes (status z)"
      using compare_resolved_left [OF False] hd unfolding set_insertStable by blast
    with Cons.IH [OF tl] show ?thesis unfolding eq sorted_wrt.simps by blast
  qed
qed

lemma partition_array_sort:
  "sorted_wrt (\<lambda>a b. isRes (status a) \<longrightarrow> isRes (status b)) (array_sort (compareHandoffs isRes) hs)"
proof (induction hs)
  case Nil
  show ?case unfolding array_sort_def foldr.simps id_apply sorted_wrt.simps by blast
next
  case (Cons h hs)
  have "array_sort (compareHandoffs isRes) (h # hs)
      = insertStable (compareHandoffs isRes) h (array_sort (compareHandoffs isRes) hs)"
    by (simp only: array_sort_def foldr.simps o_apply)
  with partition_insertStable [OF Cons.IH] show ?case by (simp only:)
qed

lemma filter_partitioned:
  assumes "sorted_wrt (\<lambda>a b. P a \<longrightarrow> P b) xs"
  shows "filter (\<lambda>h. \<not> P h) xs = takeWhile (\<lambda>h. \<not> P h) xs"
  using assms
proof (induction xs)
  case Nil
  show ?case by simp
next
  case (Cons x xs)
  have tl: "sorted_wrt (\<lambda>a b. P a \<longrightarrow> P b) xs"
    and hd: "\<forall>z\<in>set xs. P x \<longrightarrow> P z"
    using Cons.prems unfolding sorted_wrt.simps by blast+
  show ?case
  proof (cases "P x")
    case True
    with hd have "\<forall>z\<in>set xs. P z" by blast
    then have "filter (\<lambda>h. \<not> P h) xs = []" unfolding filter_empty_conv by blast
    with True show ?thesis by simp
  next
    case False
    with Cons.IH [OF tl] show ?thesis by simp
  qed
qed

lemma successively_takeWhile:
  assumes "successively R xs"
  shows "successively R (takeWhile Q xs)"
proof -
  have "successively R (takeWhile Q xs @ dropWhile Q xs)" using assms by simp
  then show ?thesis unfolding successively_append_iff by blast
qed

lemma successively_filter_unresolved:
  assumes "sorted_wrt (\<lambda>a b. P a \<longrightarrow> P b) xs" "successively R xs"
  shows "successively R (filter (\<lambda>h. \<not> P h) xs)"
  unfolding filter_partitioned [OF assms(1)] by (rule successively_takeWhile [OF assms(2)])

lemma visible_successively:
  "successively (\<lambda>a b. SortCompare (compareHandoffs isRes) a b \<le> 0)
     (visibleHandoffs_with isRes showResolved hs)"
proof -
  have s: "successively (\<lambda>a b. SortCompare (compareHandoffs isRes) a b \<le> 0)
             (array_sort (compareHandoffs isRes) hs)"
    by (rule successively_array_sort) (rule compare_total)
  have "successively (\<lambda>a b. SortCompare (compareHandoffs isRes) a b \<le> 0)
          (filter (\<lambda>h. \<not> isRes (status h)) (array_sort (compareHandoffs isRes) hs))"
    by (rule successively_filter_unresolved [OF partition_array_sort s])
  with s show ?thesis by (simp add: visibleHandoffs_with_def Let_def)
qed

lemma visible_idem:
  "visibleHandoffs_with isRes showResolved (visibleHandoffs_with isRes showResolved hs)
   = visibleHandoffs_with isRes showResolved hs"
proof -
  define v where "v = visibleHandoffs_with isRes showResolved hs"
  have fx: "array_sort (compareHandoffs isRes) v = v"
    unfolding v_def by (rule array_sort_fixed) (rule visible_successively)
  have flt: "\<not> showResolved \<Longrightarrow> filter (\<lambda>h. \<not> isRes (status h)) v = v"
    by (simp add: v_def visibleHandoffs_with_def Let_def)
  have "visibleHandoffs_with isRes showResolved v = v"
  proof (cases showResolved)
    case True
    then show ?thesis unfolding visibleHandoffs_with_def Let_def fx by simp
  next
    case False
    then show ?thesis unfolding visibleHandoffs_with_def Let_def fx using flt by simp
  qed
  then show ?thesis unfolding v_def .
qed

lemma visible_subset: "set (visibleHandoffs_with isRes showResolved hs) \<subseteq> set hs"
  by (auto simp: visibleHandoffs_with_def Let_def set_array_sort)

lemma visible_sorted:
  assumes valid: "\<forall>h\<in>set hs. effectiveTime h \<noteq> NaN"
  shows "sorted_wrt (\<lambda>a b. SortCompare (compareHandoffs isRes) a b \<le> 0)
           (visibleHandoffs_with isRes showResolved hs)"
proof -
  let ?v = "visibleHandoffs_with isRes showResolved hs"
  have val: "\<And>h. h \<in> set ?v \<Longrightarrow> effectiveTime h \<noteq> NaN"
    using valid visible_subset [of isRes showResolved hs] by blast
  have "successively (\<lambda>a b. SortCompare (compareHandoffs isRes) a b \<le> 0) ?v
     \<longleftrightarrow> sorted_wrt (\<lambda>a b. SortCompare (compareHandoffs isRes) a b \<le> 0) ?v"
  proof (rule successively_iff_sorted_wrt_strong)
    fix x y z
    assume "x \<in> set ?v" "y \<in> set ?v" "z \<in> set ?v"
      and "SortCompare (compareHandoffs isRes) x y \<le> 0" "SortCompare (compareHandoffs isRes) y z \<le> 0"
    then show "SortCompare (compareHandoffs isRes) x z \<le> 0"
      using compare_trans [of x y z isRes] val by blast
  qed
  then show ?thesis using visible_successively [of isRes showResolved hs] by blast
qed

lemma visible_order:
  assumes valid: "\<forall>h\<in>set hs. effectiveTime h \<noteq> NaN"
    and r: "r = visibleHandoffs_with isRes showResolved hs"
  shows "(\<forall>i<length r. \<forall>j<length r.
            isRes (status (r ! i)) \<and> \<not> isRes (status (r ! j)) \<longrightarrow> j < i) \<and>
         (\<forall>i j. i < j \<and> j < length r \<and> isRes (status (r ! i)) = isRes (status (r ! j)) \<longrightarrow>
            (\<exists>ti tj. effectiveTime (r ! i) = Num ti \<and> effectiveTime (r ! j) = Num tj \<and> tj \<le> ti))"
proof -
  have srt: "sorted_wrt (\<lambda>a b. SortCompare (compareHandoffs isRes) a b \<le> 0) r"
    unfolding r by (rule visible_sorted [OF valid])
  have sub: "set r \<subseteq> set hs" unfolding r by (rule visible_subset)
  have val: "effectiveTime (r ! i) \<noteq> NaN" if "i < length r" for i
  proof -
    from that have "r ! i \<in> set r" by (rule nth_mem)
    with sub valid show ?thesis by blast
  qed
  have le: "SortCompare (compareHandoffs isRes) (r ! i) (r ! j) \<le> 0" if "i < j" "j < length r" for i j
    using srt that by (rule sorted_wrt_nth_less)
  have part1: "j < i"
    if "i < length r" "j < length r" "isRes (status (r ! i))" "\<not> isRes (status (r ! j))" for i j
  proof (rule ccontr)
    assume "\<not> j < i"
    moreover have "i \<noteq> j" using that(3,4) by blast
    ultimately have "i < j" by arith
    from compare_resolved_right [OF le [OF this that(2)] that(3)] that(4) show False by blast
  qed
  have part2: "\<exists>ti tj. effectiveTime (r ! i) = Num ti \<and> effectiveTime (r ! j) = Num tj \<and> tj \<le> ti"
    if "i < j" "j < length r" "isRes (status (r ! i)) = isRes (status (r ! j))" for i j
  proof -
    from that have "i < length r" by arith
    from val [OF this] obtain ti where ti: "effectiveTime (r ! i) = Num ti"
      by (cases "effectiveTime (r ! i)") blast+
    from val [OF that(2)] obtain tj where tj: "effectiveTime (r ! j) = Num tj"
      by (cases "effectiveTime (r ! j)") blast+
    from compare_times [OF le [OF that(1) that(2)] that(3) ti tj] ti tj show ?thesis by blast
  qed
  from part1 part2 show ?thesis by blast
qed

text \<open>The groups of the shown list, whatever the timestamps.\<close>

lemma visible_partitioned:
  "sorted_wrt (\<lambda>a b. isRes (status a) \<longrightarrow> isRes (status b)) (visibleHandoffs_with isRes showResolved hs)"
proof -
  have "sorted_wrt (\<lambda>a b. isRes (status a) \<longrightarrow> isRes (status b))
          (filter (\<lambda>h. \<not> isRes (status h)) (array_sort (compareHandoffs isRes) hs))"
    by (rule sorted_wrt_filter) (rule partition_array_sort)
  with partition_array_sort [of isRes hs] show ?thesis
    unfolding visibleHandoffs_with_def Let_def by (cases showResolved) (simp_all only: if_True if_False)
qed

lemma unresolved_before_resolved:
  assumes "r = visibleHandoffs_with isRes showResolved hs"
    and "i < length r" "j < length r" "isRes (status (r ! i))" "\<not> isRes (status (r ! j))"
  shows "j < i"
proof (rule ccontr)
  assume "\<not> j < i"
  moreover have "i \<noteq> j" using assms(4,5) by blast
  ultimately have "i < j" by arith
  have "sorted_wrt (\<lambda>a b. isRes (status a) \<longrightarrow> isRes (status b)) r"
    unfolding assms(1) by (rule visible_partitioned)
  from sorted_wrt_nth_less [OF this \<open>i < j\<close> assms(3)] assms(4,5) show False by blast
qed

lemma unresolved_visible:
  assumes "h \<in> set hs" "\<not> isRes (status h)"
  shows "h \<in> set (visibleHandoffs_with isRes showResolved hs)"
  using assms by (simp add: visibleHandoffs_with_def Let_def set_array_sort)

text \<open>The model of \<open>sort\<close> against any other stable sort.\<close>

lemma compare_as_key:
  assumes "effectiveTime a \<noteq> NaN" "effectiveTime b \<noteq> NaN"
  shows "SortCompare (compareHandoffs isRes) a b \<le> 0 \<longleftrightarrow> sortKey isRes a \<le> sortKey isRes b"
    and "SortCompare (compareHandoffs isRes) a b = 0 \<longleftrightarrow> sortKey isRes a = sortKey isRes b"
proof -
  from assms obtain ta tb where t: "effectiveTime a = Num ta" "effectiveTime b = Num tb"
    by (cases "effectiveTime a"; cases "effectiveTime b") auto
  show "SortCompare (compareHandoffs isRes) a b \<le> 0 \<longleftrightarrow> sortKey isRes a \<le> sortKey isRes b"
    by (cases "isRes (status a)"; cases "isRes (status b)")
       (simp_all add: SortCompare_def compareHandoffs_def sortKey_def t less_eq_prod_def Let_def)
  show "SortCompare (compareHandoffs isRes) a b = 0 \<longleftrightarrow> sortKey isRes a = sortKey isRes b"
    by (cases "isRes (status a)"; cases "isRes (status b)")
       (auto simp: SortCompare_def compareHandoffs_def sortKey_def t Let_def)
qed

lemma insertStable_insort_key:
  assumes "effectiveTime x \<noteq> NaN" "\<forall>y\<in>set ys. effectiveTime y \<noteq> NaN"
  shows "insertStable (compareHandoffs isRes) x ys = insort_key (sortKey isRes) x ys"
  using assms(2)
proof (induction ys)
  case Nil
  show ?case by simp
next
  case (Cons y ys)
  then have y: "effectiveTime y \<noteq> NaN" and ys: "\<forall>z\<in>set ys. effectiveTime z \<noteq> NaN" by simp_all
  from compare_as_key(1) [OF assms(1) y, of isRes] Cons.IH [OF ys] show ?case by simp
qed

lemma array_sort_sort_key:
  assumes "\<forall>h\<in>set xs. effectiveTime h \<noteq> NaN"
  shows "array_sort (compareHandoffs isRes) xs = sort_key (sortKey isRes) xs"
  using assms
proof (induction xs)
  case Nil
  show ?case by (simp add: array_sort_def)
next
  case (Cons x xs)
  then have x: "effectiveTime x \<noteq> NaN" and xs: "\<forall>h\<in>set xs. effectiveTime h \<noteq> NaN" by simp_all
  have "\<forall>y\<in>set (sort_key (sortKey isRes) xs). effectiveTime y \<noteq> NaN" using xs by simp
  from insertStable_insort_key [OF x this, of isRes] Cons.IH [OF xs]
  show ?case by (simp add: array_sort_def)
qed

lemma array_sort_is_the_stable_sort:
  assumes valid: "\<forall>h\<in>set xs. effectiveTime h \<noteq> NaN"
    and perm: "mset ys = mset xs"
    and srt: "sorted_wrt (\<lambda>a b. SortCompare (compareHandoffs isRes) a b \<le> 0) ys"
    and stable: "\<forall>k\<in>set ys. filter (\<lambda>x. SortCompare (compareHandoffs isRes) k x = 0) ys
                             = filter (\<lambda>x. SortCompare (compareHandoffs isRes) k x = 0) xs"
  shows "array_sort (compareHandoffs isRes) xs = ys"
proof -
  from perm have sets: "set ys = set xs" by (rule mset_eq_setD)
  have eqv: "(SortCompare (compareHandoffs isRes) k x = 0) = (sortKey isRes k = sortKey isRes x)"
    if "k \<in> set xs" "x \<in> set xs" for k x
    using compare_as_key(2) valid that by blast
  have "sort_key (sortKey isRes) xs = ys"
  proof (rule properties_for_sort_key [OF perm])
    fix k assume k: "k \<in> set ys"
    then have kx: "k \<in> set xs" using sets by simp
    have "filter (\<lambda>x. sortKey isRes k = sortKey isRes x) ys
          = filter (\<lambda>x. SortCompare (compareHandoffs isRes) k x = 0) ys"
      by (rule filter_cong [OF refl]) (simp add: eqv [OF kx] sets)
    also have "\<dots> = filter (\<lambda>x. SortCompare (compareHandoffs isRes) k x = 0) xs"
      using stable k by blast
    also have "\<dots> = filter (\<lambda>x. sortKey isRes k = sortKey isRes x) xs"
      by (rule filter_cong [OF refl]) (simp add: eqv [OF kx])
    finally show "filter (\<lambda>x. sortKey isRes k = sortKey isRes x) ys
          = filter (\<lambda>x. sortKey isRes k = sortKey isRes x) xs" .
  next
    have "sorted_wrt (\<lambda>a b. sortKey isRes a \<le> sortKey isRes b) ys"
    proof (rule sorted_wrt_mono_rel [OF _ srt])
      fix a b assume "a \<in> set ys" "b \<in> set ys" "SortCompare (compareHandoffs isRes) a b \<le> 0"
      with compare_as_key(1) valid sets show "sortKey isRes a \<le> sortKey isRes b" by blast
    qed
    then show "sorted (map (sortKey isRes) ys)" by (simp add: sorted_map)
  qed
  with array_sort_sort_key [OF valid] show ?thesis by simp
qed

lemma feedExample_valid: "\<forall>h\<in>set feedExample. effectiveTime h \<noteq> NaN"
  by (simp add: feedExample_def effectiveTime_def)

lemma feed2_is_feed: "visibleHandoffs_feed2 showResolved hs = visibleHandoffs showResolved hs"
proof -
  have "isResolvedStatus_feed2 = isResolvedStatus"
    by (rule ext) (rule canonical_screens_agree)
  then show ?thesis by (simp add: visibleHandoffs_feed2_def visibleHandoffs_def)
qed

text \<open>
  C2. For any list of handoffs, on each feed screen (with that screen's \<open>isResolvedStatus\<close>,
  and whatever the toggle): in the list the screen shows, every resolved item stands after
  every unresolved item; and when the timestamps of the handoffs are dates, of two items of the
  same group the later one has an effective timestamp (the last-update timestamp if present,
  else the creation timestamp) that is not greater than that of the earlier one. The feed of
  \<open>unnamed/part_002\<close> shows the same list as the feed of \<open>unnamed/part_001\<close>.
\<close>

theorem feed_order:
  "(\<forall>i<length (visibleHandoffs showResolved hs). \<forall>j<length (visibleHandoffs showResolved hs).
      isResolvedStatus (status (visibleHandoffs showResolved hs ! i))
      \<and> \<not> isResolvedStatus (status (visibleHandoffs showResolved hs ! j)) \<longrightarrow> j < i)
   \<and> ((\<forall>h\<in>set hs. effectiveTime h \<noteq> NaN) \<longrightarrow>
        (\<forall>i j. i < j \<and> j < length (visibleHandoffs showResolved hs)
          \<and> isResolvedStatus (status (visibleHandoffs showResolved hs ! i))
            = isResolvedStatus (status (visibleHandoffs showResolved hs ! j)) \<longrightarrow>
          (\<exists>ti tj. effectiveTime (visibleHandoffs showResolved hs ! i) = Num ti
             \<and> effectiveTime (visibleHandoffs showResolved hs ! j) = Num tj \<and> tj \<le> ti)))
   \<and> (\<forall>i<length (visibleHandoffs_page showResolved hs). \<forall>j<length (visibleHandoffs_page showResolved hs).
      isResolvedStatus_page (status (visibleHandoffs_page showResolved hs ! i))
      \<and> \<not> isResolvedStatus_page (status (visibleHandoffs_page showResolved hs ! j)) \<longrightarrow> j < i)
   \<and> ((\<forall>h\<in>set hs. effectiveTime h \<noteq> NaN) \<longrightarrow>
        (\<forall>i j. i < j \<and> j < length (visibleHandoffs_page showResolved hs)
          \<and> isResolvedStatus_page (status (visibleHandoffs_page showResolved hs ! i))
            = isResolvedStatus_page (status (visibleHandoffs_page showResolved hs ! j)) \<longrightarrow>
          (\<exists>ti tj. effectiveTime (visibleHandoffs_page showResolved hs ! i) = Num ti
             \<and> effectiveTime (visibleHandoffs_page showResolved hs ! j) = Num tj \<and> tj \<le> ti)))
   \<and> visibleHandoffs_feed2 showResolved hs = visibleHandoffs showResolved hs"
proof -
  have groups: "\<forall>i<length (visibleHandoffs_with isRes showResolved hs).
          \<forall>j<length (visibleHandoffs_with isRes showResolved hs).
            isRes (status (visibleHandoffs_with isRes showResolved hs ! i))
            \<and> \<not> isRes (status (visibleHandoffs_with isRes showResolved hs ! j)) \<longrightarrow> j < i" for isRes
    using unresolved_before_resolved [of "visibleHandoffs_with isRes showResolved hs" isRes showResolved hs]
    by blast
  have times: "\<forall>i j. i < j \<and> j < length (visibleHandoffs_with isRes showResolved hs)
          \<and> isRes (status (visibleHandoffs_with isRes showResolved hs ! i))
            = isRes (status (visibleHandoffs_with isRes showResolved hs ! j)) \<longrightarrow>
          (\<exists>ti tj. effectiveTime (visibleHandoffs_with isRes showResolved hs ! i) = Num ti
             \<and> effectiveTime (visibleHandoffs_with isRes showResolved hs ! j) = Num tj \<and> tj \<le> ti)"
    if "\<forall>h\<in>set hs. effectiveTime h \<noteq> NaN" for isRes
    using visible_order [OF that, of "visibleHandoffs_with isRes showResolved hs" isRes showResolved]
    by blast
  from groups [of isResolvedStatus] groups [of isResolvedStatus_page]
       times [of isResolvedStatus] times [of isResolvedStatus_page] feed2_is_feed [of showResolved hs]
  show ?thesis unfolding visibleHandoffs_def visibleHandoffs_page_def by blast
qed

theorem feed_order_witness:
  "list_all (\<lambda>h. effectiveTime h \<noteq> NaN) feedExample
   \<and> map id_h (visibleHandoffs True feedExample) = [''c'', ''b'', ''a'']
   \<and> (\<exists>ti tj. effectiveTime (visibleHandoffs True feedExample ! 0) = Num ti
         \<and> effectiveTime (visibleHandoffs True feedExample ! 1) = Num tj \<and> tj \<le> ti)"
proof -
  have ids: "map id_h (visibleHandoffs True feedExample) = [''c'', ''b'', ''a'']"
    by code_simp
  have len: "1 < length (visibleHandoffs True feedExample)"
    by code_simp
  have grp: "isResolvedStatus (status (visibleHandoffs True feedExample ! 0))
             = isResolvedStatus (status (visibleHandoffs True feedExample ! 1))"
    by code_simp
  have "\<forall>i j. i < j \<and> j < length (visibleHandoffs True feedExample)
          \<and> isResolvedStatus (status (visibleHandoffs True feedExample ! i))
            = isResolvedStatus (status (visibleHandoffs True feedExample ! j)) \<longrightarrow>
          (\<exists>ti tj. effectiveTime (visibleHandoffs True feedExample ! i) = Num ti
             \<and> effectiveTime (visibleHandoffs True feedExample ! j) = Num tj \<and> tj \<le> ti)"
    using feed_order [of True feedExample] feedExample_valid by blast
  then have "(0::nat) < 1 \<and> 1 < length (visibleHandoffs True feedExample)
          \<and> isResolvedStatus (status (visibleHandoffs True feedExample ! 0))
            = isResolvedStatus (status (visibleHandoffs True feedExample ! 1)) \<longrightarrow>
          (\<exists>ti tj. effectiveTime (visibleHandoffs True feedExample ! 0) = Num ti
             \<and> effectiveTime (visibleHandoffs True feedExample ! 1) = Num tj \<and> tj \<le> ti)"
    by blast
  with len grp have "\<exists>ti tj. effectiveTime (visibleHandoffs True feedExample ! 0) = Num ti
             \<and> effectiveTime (visibleHandoffs True feedExample ! 1) = Num tj \<and> tj \<le> ti"
    by simp
  moreover have "list_all (\<lambda>h. effectiveTime h \<noteq> NaN) feedExample"
    using feedExample_valid by (simp add: list_all_iff)
  ultimately show ?thesis using ids by blast
qed

text \<open>
  C3. The feed ordering policy is idempotent: on each feed screen, for any list of handoffs
  whose timestamps are dates and either position of the toggle, applying sort-and-filter to its
  own result gives that result. (On such a list \<open>array_sort\<close> is the engine's sort, by lemma
  \<open>array_sort_is_the_stable_sort\<close>; a list with a timestamp that is not a date is left out,
  since the comparator returns \<open>NaN\<close> there and the order is up to the engine.)
\<close>

theorem visible_feed_idempotent:
  assumes "\<forall>h\<in>set hs. effectiveTime h \<noteq> NaN"
  shows "visibleHandoffs showResolved (visibleHandoffs showResolved hs)
           = visibleHandoffs showResolved hs
   \<and> visibleHandoffs_feed2 showResolved (visibleHandoffs_feed2 showResolved hs)
       = visibleHandoffs_feed2 showResolved hs
   \<and> visibleHandoffs_page showResolved (visibleHandoffs_page showResolved hs)
       = visibleHandoffs_page showResolved hs"
  unfolding visibleHandoffs_def visibleHandoffs_feed2_def visibleHandoffs_page_def
  by (simp only: visible_idem)

theorem visible_feed_idempotent_witness:
  "list_all (\<lambda>h. effectiveTime h \<noteq> NaN) feedExample
   \<and> visibleHandoffs False (visibleHandoffs False feedExample) = visibleHandoffs False feedExample
   \<and> map id_h (visibleHandoffs False feedExample) = [''c'', ''b'']"
proof -
  have "map id_h (visibleHandoffs False feedExample) = [''c'', ''b'']"
    by code_simp
  moreover have "list_all (\<lambda>h. effectiveTime h \<noteq> NaN) feedExample"
    using feedExample_valid by (simp add: list_all_iff)
  ultimately show ?thesis
    using visible_feed_idempotent [OF feedExample_valid, of False] by blast
qed

section \<open>The server-side resolve handler\<close>

lemma closed_not_resolved:
  "\<not> isResolvedStatus (Some ''closed'')"
  "\<not> isResolvedStatus_detail (Some ''closed'')"
  "StatusPill (Some ''closed'') = ''OPEN''"
  by code_simp+

lemma POST_resolve_table:
  assumes "bearerToken (orDefault (map_of (headers req) ''authorization'') '''') = Some tok"
    and "getUser tok = Inr (Some u)"
    and "json req = Inr j"
    and "truthy (map_of j ''handoff_id'')"
  shows "handoffs_tbl (snd (POST_resolve getUser None insFault req d))
         = map (\<lambda>h. if id_h h = String_of (the (map_of j ''handoff_id''))
                     then h\<lparr>status := Some ''closed''\<rparr> else h) (handoffs_tbl d)"
  using assms
  by (cases insFault)
     (simp_all add: POST_resolve_def update_status_def insert_update_def Let_def)

text \<open>
  C10. The server-side resolve handler writes the status value \<open>closed\<close>: for a request with
  a bearer token the identity provider accepts and a \<open>handoff_id\<close>, when the \<open>UPDATE\<close> does not
  fail, the rows of that id afterwards hold \<open>closed\<close> (whatever becomes of the audit insert).
  Under the canonical policy of the detail screen and of the feed with the onboarding gate such
  a handoff is not resolved: its pill reads \<open>OPEN\<close>, the feed shows it also while resolved
  items are hidden, and in the feed it stands before every resolved item.
\<close>

theorem server_resolve_writes_closed:
  assumes "bearerToken (orDefault (map_of (headers req) ''authorization'') '''') = Some tok"
    and "getUser tok = Inr (Some u)"
    and "json req = Inr j"
    and "truthy (map_of j ''handoff_id'')"
  shows
    "handoffs_tbl (snd (POST_resolve getUser None insFault req d))
       = map (\<lambda>h. if id_h h = String_of (the (map_of j ''handoff_id''))
                   then h\<lparr>status := Some ''closed''\<rparr> else h) (handoffs_tbl d)
     \<and> (\<forall>h\<in>set (handoffs_tbl (snd (POST_resolve getUser None insFault req d))).
           id_h h = String_of (the (map_of j ''handoff_id'')) \<longrightarrow>
             status h = Some ''closed'' \<and> StatusPill (status h) = ''OPEN''
             \<and> \<not> isResolvedStatus (status h) \<and> \<not> isResolvedStatus_detail (status h))
     \<and> (\<forall>hs h showResolved. h \<in> set hs \<and> status h = Some ''closed'' \<longrightarrow>
           h \<in> set (visibleHandoffs showResolved hs)
           \<and> (\<forall>i<length (visibleHandoffs showResolved hs). \<forall>k<length (visibleHandoffs showResolved hs).
                 isResolvedStatus (status (visibleHandoffs showResolved hs ! i))
                 \<and> visibleHandoffs showResolved hs ! k = h \<longrightarrow> k < i))"
proof -
  let ?tbl = "handoffs_tbl (snd (POST_resolve getUser None insFault req d))"
  let ?hid = "String_of (the (map_of j ''handoff_id''))"
  have tbl: "?tbl = map (\<lambda>h. if id_h h = ?hid then h\<lparr>status := Some ''closed''\<rparr> else h) (handoffs_tbl d)"
    by (rule POST_resolve_table [where getUser = getUser and tok = tok and u = u, OF assms])
  have rows: "status h = Some ''closed'' \<and> StatusPill (status h) = ''OPEN''
               \<and> \<not> isResolvedStatus (status h) \<and> \<not> isResolvedStatus_detail (status h)"
    if "h \<in> set ?tbl" "id_h h = ?hid" for h
  proof -
    from that(1) have "h \<in> (\<lambda>h. if id_h h = ?hid then h\<lparr>status := Some ''closed''\<rparr> else h) ` set (handoffs_tbl d)"
      unfolding tbl by (simp only: set_map)
    then obtain h0 where "h = (if id_h h0 = ?hid then h0\<lparr>status := Some ''closed''\<rparr> else h0)"
      by (rule imageE)
    with that(2) have "status h = Some ''closed''" by (cases "id_h h0 = ?hid") simp_all
    with closed_not_resolved show ?thesis by simp
  qed
  have feed: "h \<in> set (visibleHandoffs showResolved hs)
           \<and> (\<forall>i<length (visibleHandoffs showResolved hs). \<forall>k<length (visibleHandoffs showResolved hs).
                 isResolvedStatus (status (visibleHandoffs showResolved hs ! i))
                 \<and> visibleHandoffs showResolved hs ! k = h \<longrightarrow> k < i)"
    if "h \<in> set hs" "status h = Some ''closed''" for hs h showResolved
  proof -
    from that(2) closed_not_resolved(1) have nr: "\<not> isResolvedStatus (status h)" by simp
    have "h \<in> set (visibleHandoffs showResolved hs)"
      unfolding visibleHandoffs_def
      by (rule unresolved_visible [where isRes = isResolvedStatus, OF that(1) nr])
    moreover have "k < i"
      if "i < length (visibleHandoffs showResolved hs)" "k < length (visibleHandoffs showResolved hs)"
         "isResolvedStatus (status (visibleHandoffs showResolved hs ! i))"
         "visibleHandoffs showResolved hs ! k = h" for i k
    proof -
      from that(4) nr have "\<not> isResolvedStatus (status (visibleHandoffs showResolved hs ! k))" by simp
      with unresolved_before_resolved [of "visibleHandoffs showResolved hs" isResolvedStatus showResolved hs i k]
           that(1-3)
      show ?thesis unfolding visibleHandoffs_def by blast
    qed
    ultimately show ?thesis by blast
  qed
  from tbl rows feed show ?thesis by blast
qed

theorem server_resolve_writes_closed_witness:
  "bearerToken (orDefault (map_of (headers resolveRequest) ''authorization'') '''') = Some ''tok-1''
   \<and> resolveGetUser ''tok-1'' = Inr (Some resolveUser)
   \<and> json resolveRequest = Inr [(''handoff_id'', JStr ''b'')]
   \<and> truthy (map_of [(''handoff_id'', JStr ''b'')] ''handoff_id'')
   \<and> map (\<lambda>h. (id_h h, status h))
        (handoffs_tbl (snd (POST_resolve resolveGetUser None None resolveRequest resolveDb)))
      = [(''a'', Some ''resolved''), (''b'', Some ''closed''), (''c'', None)]"
proof -
  have a: "bearerToken (orDefault (map_of (headers resolveRequest) ''authorization'') '''') = Some ''tok-1''"
    by code_simp
  have b: "resolveGetUser ''tok-1'' = Inr (Some resolveUser)"
    by (simp add: resolveGetUser_def)
  have c: "json resolveRequest = Inr [(''handoff_id'', JStr ''b'')]"
    by (simp add: resolveRequest_def)
  have e: "truthy (map_of [(''handoff_id'', JStr ''b'')] ''handoff_id'')"
    by simp
  from server_resolve_writes_closed [where getUser = resolveGetUser and tok = "''tok-1''" and u = resolveUser
         and insFault = None and d = resolveDb, OF a b c e]
  have "handoffs_tbl (snd (POST_resolve resolveGetUser None None resolveRequest resolveDb))
        = map (\<lambda>h. if id_h h = ''b'' then h\<lparr>status := Some ''closed''\<rparr> else h) (handoffs_tbl resolveDb)"
    by simp
  then have "map (\<lambda>h. (id_h h, status h))
        (handoffs_tbl (snd (POST_resolve resolveGetUser None None resolveRequest resolveDb)))
      = [(''a'', Some ''resolved''), (''b'', Some ''closed''), (''c'', None)]"
    by (simp add: resolveDb_def feedExample_def)
  with a b c e show ?thesis by blast
qed

section \<open>Properties of the relay endpoints\<close>

subsection \<open>Substrings and the token scanner\<close>









subsection \<open>The secret check\<close>

lemma POST_alert_checks_secret:
  "secretRejected webhookSecret req \<Longrightarrow>
   POST_alert webhookSecret fault req d = (respond 401 (ErrorBody ''Unauthorized''), d)"
  by (simp add: POST_alert_def)

lemma POST_notify_checks_secret:
  "secretRejected webhookSecret req \<Longrightarrow>
   POST_notify webhookSecret fault req d = (respond 401 (ErrorBody ''Unauthorized''), d)"
  by (simp add: POST_notify_def)

lemma secretRejected_iff:
  "secretRejected (Some secret) req \<longleftrightarrow>
     secret \<noteq> [] \<and> map_of (headers req) ''x-webhook-secret'' \<noteq> Some secret"
  by (auto simp: secretRejected_def split: option.splits)

text \<open>
  C6 at its failing input. The secret \<open>s3cret\<close> is configured and the request carries no
  \<open>x-webhook-secret\<close> header. The check the other two handlers make rejects the request, and
  \<open>/api/sms/alert\<close> answers 401 and writes nothing; the token-addressed relay answers ok and
  has inserted an update.
\<close>

theorem token_relay_ignores_secret:
  "secretRejected (Some ''s3cret'') (smsReply ''Update: all clear H:AB12'')
   \<and> POST_alert (Some ''s3cret'') None (smsReply ''Update: all clear H:AB12'') resolveDb
       = (respond 401 (ErrorBody ''Unauthorized''), resolveDb)
   \<and> POST_relay None None (smsReply ''Update: all clear H:AB12'') resolveDb
       = (respond 200 OkBody,
          resolveDb\<lparr>handoff_updates_tbl :=
            [\<lparr>handoff_id = ''b'', author_user_id = None,
              author_display_name_snapshot = Some ''sms:+15551234567'',
              source = ''sms'', message = ''Update: all clear H:AB12''\<rparr>]\<rparr>)"
proof -
  have rej: "secretRejected (Some ''s3cret'') (smsReply ''Update: all clear H:AB12'')"
    by (simp add: secretRejected_def smsReply_def)
  have body: "readRelayBody (smsReply ''Update: all clear H:AB12'')
              = Inr (''Update: all clear H:AB12'', Some ''+15551234567'')"
    by (simp add: readRelayBody_def smsReply_def contentType_def orDefault_def)
  have tr: "trim ''Update: all clear H:AB12'' = ''Update: all clear H:AB12''"
    by code_simp
  have tok: "extractToken ''Update: all clear H:AB12'' = Some ''AB12''"
    by code_simp
  have "POST_relay None None (smsReply ''Update: all clear H:AB12'') resolveDb
       = (respond 200 OkBody,
          resolveDb\<lparr>handoff_updates_tbl :=
            [\<lparr>handoff_id = ''b'', author_user_id = None,
              author_display_name_snapshot = Some ''sms:+15551234567'',
              source = ''sms'', message = ''Update: all clear H:AB12''\<rparr>]\<rparr>)"
    by (simp add: POST_relay_def body tr tok single_token_def insert_update_def resolveDb_def
        sms_author_def)
  with rej POST_alert_checks_secret [OF rej] show ?thesis by simp
qed

theorem token_relay_ignores_secret_witness:
  "http_status (fst (POST_alert (Some ''s3cret'') None (smsReply ''Update: all clear H:AB12'') resolveDb)) = 401
   \<and> http_status (fst (POST_relay None None (smsReply ''Update: all clear H:AB12'') resolveDb)) = 200
   \<and> length (handoff_updates_tbl (snd (POST_relay None None (smsReply ''Update: all clear H:AB12'') resolveDb)))
       = Suc (length (handoff_updates_tbl resolveDb))"
  using token_relay_ignores_secret by (simp add: respond_def resolveDb_def)

subsection \<open>The token-addressed relay\<close>







subsection \<open>The alert audit\<close>

lemma alertMessage_summary:
  "\<exists>pre. alertMessage loc summ = pre @ take 120 (String_of (the (orElse summ (Some (JStr '''')))))"
  unfolding alertMessage_def by (metis append.assoc)

lemma POST_notify_high:
  assumes "\<not> secretRejected webhookSecret req" "json req = Inr j"
    and "truthy (map_of j ''handoff_id'')" "truthy (map_of j ''priority'')"
    and "toLowerCase (String_of (the (map_of j ''priority''))) = ''high''"
  shows "POST_notify webhookSecret None req d
         = (respond 200 OkAlerted,
            d\<lparr>handoff_updates_tbl := handoff_updates_tbl d @
                 [\<lparr>handoff_id = String_of (the (map_of j ''handoff_id'')), author_user_id = None,
                   author_display_name_snapshot = Some ''system'', source = ''system'',
                   message = alertMessage (map_of j ''location_code'') (map_of j ''summary'')\<rparr>]\<rparr>)"
  using assms by (simp add: POST_notify_def insert_update_def Let_def)

lemma POST_notify_other:
  assumes "\<not> secretRejected webhookSecret req" "json req = Inr j"
    and "truthy (map_of j ''handoff_id'')" "truthy (map_of j ''priority'')"
    and "toLowerCase (String_of (the (map_of j ''priority''))) \<noteq> ''high''"
  shows "POST_notify webhookSecret fault req d = (respond 200 OkSkipped, d)"
  using assms by (simp add: POST_notify_def Let_def)

lemma toLowerCase_high: "toLowerCase ''high'' = ''high''"
  by code_simp

text \<open>
  C8, as amended. For every request to the alert audit that passes the secret check and has a
  JSON body with \<open>handoff_id\<close> and \<open>priority\<close>: when the priority, lower-cased, is
  \<open>high\<close> (so for \<open>high\<close> itself) and the insert does not fail, exactly one update is appended, with
  source \<open>system\<close>, for that handoff, its message ending with the first 120 characters of the
  summary, and the answer says alerted; when the lower-cased priority is not \<open>high\<close>, nothing is
  written and the answer says skipped.
\<close>

theorem alert_audit:
  assumes "\<not> secretRejected webhookSecret req" "json req = Inr j"
    and "truthy (map_of j ''handoff_id'')" "truthy (map_of j ''priority'')"
  shows
    "(toLowerCase (String_of (the (map_of j ''priority''))) = ''high'' \<longrightarrow>
        POST_notify webhookSecret None req d
          = (respond 200 OkAlerted,
             d\<lparr>handoff_updates_tbl := handoff_updates_tbl d @
                  [\<lparr>handoff_id = String_of (the (map_of j ''handoff_id'')), author_user_id = None,
                    author_display_name_snapshot = Some ''system'', source = ''system'',
                    message = alertMessage (map_of j ''location_code'') (map_of j ''summary'')\<rparr>]\<rparr>)
        \<and> (\<exists>pre. alertMessage (map_of j ''location_code'') (map_of j ''summary'')
              = pre @ take 120 (String_of (the (orElse (map_of j ''summary'') (Some (JStr '''')))))))
     \<and> (String_of (the (map_of j ''priority'')) = ''high'' \<longrightarrow>
          toLowerCase (String_of (the (map_of j ''priority''))) = ''high'')
     \<and> (toLowerCase (String_of (the (map_of j ''priority''))) \<noteq> ''high'' \<longrightarrow>
          POST_notify webhookSecret fault req d = (respond 200 OkSkipped, d))"
proof -
  have "String_of (the (map_of j ''priority'')) = ''high'' \<longrightarrow>
          toLowerCase (String_of (the (map_of j ''priority''))) = ''high''"
    using toLowerCase_high by simp
  with POST_notify_high [OF assms] POST_notify_other [OF assms] alertMessage_summary
  show ?thesis by blast
qed

theorem alert_audit_witness:
  "\<not> secretRejected (Some ''s3cret'') (notifyRequest ''high'')
   \<and> json (notifyRequest ''high'')
       = Inr [(''handoff_id'', JStr ''b''), (''summary'', JStr ''bed rail loose''),
              (''priority'', JStr ''high''), (''location_code'', JStr ''4W'')]
   \<and> POST_notify (Some ''s3cret'') None (notifyRequest ''high'') resolveDb
       = (respond 200 OkAlerted,
          resolveDb\<lparr>handoff_updates_tbl :=
            [\<lparr>handoff_id = ''b'', author_user_id = None,
              author_display_name_snapshot = Some ''system'', source = ''system'',
              message = ''SYSTEM: SMS ALERT TRIGGERED (high) [4W]: bed rail loose''\<rparr>]\<rparr>)
   \<and> POST_notify (Some ''s3cret'') None (notifyRequest ''medium'') resolveDb
       = (respond 200 OkSkipped, resolveDb)"
proof -
  have s: "\<not> secretRejected (Some ''s3cret'') (notifyRequest p)" for p
    by (simp add: secretRejected_def notifyRequest_def)
  have j: "json (notifyRequest p)
       = Inr [(''handoff_id'', JStr ''b''), (''summary'', JStr ''bed rail loose''),
              (''priority'', JStr p), (''location_code'', JStr ''4W'')]" for p
    by (simp add: notifyRequest_def)
  have lo: "toLowerCase ''medium'' \<noteq> ''high''" by code_simp
  have hi: "POST_notify (Some ''s3cret'') None (notifyRequest ''high'') resolveDb
       = (respond 200 OkAlerted,
          resolveDb\<lparr>handoff_updates_tbl :=
            [\<lparr>handoff_id = ''b'', author_user_id = None,
              author_display_name_snapshot = Some ''system'', source = ''system'',
              message = ''SYSTEM: SMS ALERT TRIGGERED (high) [4W]: bed rail loose''\<rparr>]\<rparr>)"
    using alert_audit [where d = resolveDb, OF s [of "''high''"] j [of "''high''"]] toLowerCase_high
    by (simp add: alertMessage_def orElse_def resolveDb_def)
  have "POST_notify (Some ''s3cret'') None (notifyRequest ''medium'') resolveDb
       = (respond 200 OkSkipped, resolveDb)"
    using alert_audit [where d = resolveDb and fault = None, OF s [of "''medium''"] j [of "''medium''"]] lo
    by simp
  with s j hi show ?thesis by blast
qed

text \<open>
  C8 as stated fails: the priority \<open>HIGH\<close> is not \<open>high\<close>, yet the request is answered
  alerted and an update is written, because the handler lower-cases the priority.
\<close>

theorem alert_audit_ignores_case:
  "''HIGH'' \<noteq> ''high''
   \<and> POST_notify (Some ''s3cret'') None (notifyRequest ''HIGH'') resolveDb
       = (respond 200 OkAlerted,
          resolveDb\<lparr>handoff_updates_tbl :=
            [\<lparr>handoff_id = ''b'', author_user_id = None,
              author_display_name_snapshot = Some ''system'', source = ''system'',
              message = ''SYSTEM: SMS ALERT TRIGGERED (high) [4W]: bed rail loose''\<rparr>]\<rparr>)"
proof -
  have s: "\<not> secretRejected (Some ''s3cret'') (notifyRequest ''HIGH'')"
    by (simp add: secretRejected_def notifyRequest_def)
  have j: "json (notifyRequest ''HIGH'')
       = Inr [(''handoff_id'', JStr ''b''), (''summary'', JStr ''bed rail loose''),
              (''priority'', JStr ''HIGH''), (''location_code'', JStr ''4W'')]"
    by (simp add: notifyRequest_def)
  have lo: "toLowerCase ''HIGH'' = ''high''" by code_simp
  from POST_notify_high [OF s j] lo show ?thesis
    by (simp add: alertMessage_def orElse_def resolveDb_def)
qed

section \<open>Properties of the screens\<close>

subsection \<open>The onboarding gate\<close>

lemma onboarding_gate:
  assumes "error sess = None" "data sess = Some u" "user_id u \<noteq> []" "error profR = None"
    and "trim (orDefault (case data profR of None \<Rightarrow> None | Some p \<Rightarrow> display_name p) '''') = []
         \<or> trim (orDefault (case data profR of None \<Rightarrow> None | Some p \<Rightarrow> shift p) '''') = []"
  shows "snd (loadSessionAndFeed st sess profR feedR)
           = [GetSession, SelectProfile (user_id u), RouterPush ''/onboarding'']"
    and "handoffs (fst (loadSessionAndFeed st sess profR feedR)) = handoffs st"
  using assms by (auto simp: loadSessionAndFeed_def Let_def uidOf_def orDefault_def)

lemma ungated_feed_reads_handoffs:
  assumes "error sess = None" "data sess = Some u" "user_id u \<noteq> []"
  shows "snd (loadSessionAndFeed_page st sess feedR) = [GetSession, SelectHandoffs]"
  using assms
  by (cases "error feedR") (simp_all add: loadSessionAndFeed_page_def Let_def uidOf_def orDefault_def)

text \<open>
  C9 at its failing input: a signed-in actor whose profile row has a blank display name and no
  shift. The feed of \<open>unnamed/part_001\<close> reads the profile, pushes \<open>/onboarding\<close> and issues no
  read of handoffs. The feed of \<open>src/app/page.tsx\<close> (and of \<open>unnamed/part_002\<close>, which has the
  same function) reads the handoffs at once, shows them, and never redirects.
\<close>

theorem ungated_feed_skips_onboarding:
  "snd (loadSessionAndFeed feedState0 sessionReply incompleteProfile feedReply)
     = [GetSession, SelectProfile ''u-1'', RouterPush ''/onboarding'']
   \<and> handoffs (fst (loadSessionAndFeed feedState0 sessionReply incompleteProfile feedReply)) = []
   \<and> snd (loadSessionAndFeed_page feedState0 sessionReply feedReply) = [GetSession, SelectHandoffs]
   \<and> handoffs (fst (loadSessionAndFeed_page feedState0 sessionReply feedReply)) = feedExample"
proof -
  have tr: "trim ''  '' = []" by code_simp
  have a: "snd (loadSessionAndFeed feedState0 sessionReply incompleteProfile feedReply)
     = [GetSession, SelectProfile ''u-1'', RouterPush ''/onboarding'']"
    by (simp add: loadSessionAndFeed_def Let_def uidOf_def orDefault_def sessionReply_def
        incompleteProfile_def resolveUser_def tr)
  have b: "handoffs (fst (loadSessionAndFeed feedState0 sessionReply incompleteProfile feedReply)) = []"
    by (simp add: loadSessionAndFeed_def Let_def uidOf_def orDefault_def sessionReply_def
        incompleteProfile_def resolveUser_def feedState0_def tr)
  have c: "snd (loadSessionAndFeed_page feedState0 sessionReply feedReply) = [GetSession, SelectHandoffs]"
    by (simp add: loadSessionAndFeed_page_def Let_def uidOf_def orDefault_def sessionReply_def
        feedReply_def resolveUser_def)
  have d: "handoffs (fst (loadSessionAndFeed_page feedState0 sessionReply feedReply)) = feedExample"
    by (simp add: loadSessionAndFeed_page_def Let_def uidOf_def orDefault_def sessionReply_def
        feedReply_def resolveUser_def)
  from a b c d show ?thesis by blast
qed

theorem ungated_feed_skips_onboarding_witness:
  "SelectHandoffs \<in> set (snd (loadSessionAndFeed_page feedState0 sessionReply feedReply))
   \<and> RouterPush ''/onboarding'' \<notin> set (snd (loadSessionAndFeed_page feedState0 sessionReply feedReply))
   \<and> SelectHandoffs \<notin> set (snd (loadSessionAndFeed feedState0 sessionReply incompleteProfile feedReply))"
  using ungated_feed_skips_onboarding by simp

subsection \<open>Resolving on the detail screen\<close>

lemma markResolved_zero_rows:
  assumes "handoff_d st = Some h" "id_h h \<noteq> []" "error updR = None"
    and "data updR = None \<or> data updR = Some []"
  shows "markResolved ident st t updR sess hR uR
         = (st\<lparr>toast_d := None, errorMsg_d := Some zeroRowsMessage, resolving_d := False\<rparr>,
            [UpdateHandoff (id_h h) ''resolved'' (Instant t) [''id'', ''status'', ''last_update_at'']])"
  using assms by (auto simp: markResolved_def Let_def)

lemma backend_update_blocked:
  "backend_update False None i v now rows = (\<lparr>data = Some [], error = None\<rparr>, rows)"
  by (simp add: backend_update_def)

text \<open>
  C5. The update request of the resolve operation names the columns to return
  (\<open>id, status, last_update_at\<close>), so the written row is requested back. When the answer has no
  error and no rows, which is what the backend answers when row-level security forbids the
  \<open>UPDATE\<close>, the operation sets the error message about zero updated rows and blocked access,
  shows no success toast, does not reload, and leaves the handoff of the screen as it was.
\<close>

theorem silent_write_rejection:
  assumes "handoff_d st = Some h" "id_h h \<noteq> []"
  shows
    "(error updR = None \<and> (data updR = None \<or> data updR = Some []) \<longrightarrow>
        snd (markResolved ident st t updR sess hR uR)
          = [UpdateHandoff (id_h h) ''resolved'' (Instant t) [''id'', ''status'', ''last_update_at'']]
        \<and> errorMsg_d (fst (markResolved ident st t updR sess hR uR)) = Some zeroRowsMessage
        \<and> toast_d (fst (markResolved ident st t updR sess hR uR)) = None
        \<and> handoff_d (fst (markResolved ident st t updR sess hR uR)) = handoff_d st
        \<and> updates_d (fst (markResolved ident st t updR sess hR uR)) = updates_d st
        \<and> resolving_d (fst (markResolved ident st t updR sess hR uR)) = False)
     \<and> backend_update False None (id_h h) ''resolved'' (Instant t) rows
         = (\<lparr>data = Some [], error = None\<rparr>, rows)
     \<and> (\<not> resolveDisabled st \<longrightarrow>
          resolveOnBackend False None rows ident st t sess uR
            = ((st\<lparr>toast_d := None, errorMsg_d := Some zeroRowsMessage, resolving_d := False\<rparr>,
                [UpdateHandoff (id_h h) ''resolved'' (Instant t) [''id'', ''status'', ''last_update_at'']]),
               rows))"
proof -
  have reply: "snd (markResolved ident st t updR sess hR uR)
          = [UpdateHandoff (id_h h) ''resolved'' (Instant t) [''id'', ''status'', ''last_update_at'']]
        \<and> errorMsg_d (fst (markResolved ident st t updR sess hR uR)) = Some zeroRowsMessage
        \<and> toast_d (fst (markResolved ident st t updR sess hR uR)) = None
        \<and> handoff_d (fst (markResolved ident st t updR sess hR uR)) = handoff_d st
        \<and> updates_d (fst (markResolved ident st t updR sess hR uR)) = updates_d st
        \<and> resolving_d (fst (markResolved ident st t updR sess hR uR)) = False"
    if "error updR = None" "data updR = None \<or> data updR = Some []"
    by (simp add: markResolved_zero_rows [OF assms that])
  have world: "resolveOnBackend False None rows ident st t sess uR
            = ((st\<lparr>toast_d := None, errorMsg_d := Some zeroRowsMessage, resolving_d := False\<rparr>,
                [UpdateHandoff (id_h h) ''resolved'' (Instant t) [''id'', ''status'', ''last_update_at'']]),
               rows)"
    if "\<not> resolveDisabled st"
  proof -
    have "markResolved ident st t \<lparr>data = Some [], error = None\<rparr> sess
            (backend_single (orDefault ident '''') rows) uR
          = (st\<lparr>toast_d := None, errorMsg_d := Some zeroRowsMessage, resolving_d := False\<rparr>,
             [UpdateHandoff (id_h h) ''resolved'' (Instant t) [''id'', ''status'', ''last_update_at'']])"
      by (rule markResolved_zero_rows [OF assms]) simp_all
    with that assms(1) show ?thesis
      by (simp add: resolveOnBackend_def backend_update_blocked clickMarkResolved_def)
  qed
  from reply world backend_update_blocked show ?thesis by blast
qed

theorem silent_write_rejection_witness:
  "handoff_d detailState0 = Some handoffB \<and> id_h handoffB \<noteq> []
   \<and> resolveOnBackend False None feedExample (Some ''b'') detailState0 77 sessionReply updatesReply
       = ((detailState0\<lparr>errorMsg_d := Some zeroRowsMessage\<rparr>,
           [UpdateHandoff ''b'' ''resolved'' (Instant 77) [''id'', ''status'', ''last_update_at'']]),
          feedExample)"
proof -
  have a: "handoff_d detailState0 = Some handoffB" by (simp add: detailState0_def)
  have b: "id_h handoffB \<noteq> []" by (simp add: handoffB_def)
  have c: "\<not> resolveDisabled detailState0" by code_simp
  from silent_write_rejection [where rows = feedExample and ident = "Some ''b''" and t = 77
         and sess = sessionReply and uR = updatesReply, OF a b] c
  have "resolveOnBackend False None feedExample (Some ''b'') detailState0 77 sessionReply updatesReply
       = ((detailState0\<lparr>toast_d := None, errorMsg_d := Some zeroRowsMessage, resolving_d := False\<rparr>,
           [UpdateHandoff (id_h handoffB) ''resolved'' (Instant 77) [''id'', ''status'', ''last_update_at'']]),
          feedExample)"
    by blast
  then have "resolveOnBackend False None feedExample (Some ''b'') detailState0 77 sessionReply updatesReply
       = ((detailState0\<lparr>errorMsg_d := Some zeroRowsMessage\<rparr>,
           [UpdateHandoff ''b'' ''resolved'' (Instant 77) [''id'', ''status'', ''last_update_at'']]),
          feedExample)"
    by (simp add: detailState0_def handoffB_def)
  with a b show ?thesis by blast
qed

subsection \<open>The two resolve operations\<close>

text \<open>The screen's operation against a backend that lets the write through.\<close>

lemma backend_update_allowed:
  "backend_update True None i v now rows
   = (\<lparr>data = Some (filter (\<lambda>h. id_h h = i)
          (map (\<lambda>h. if id_h h = i then h\<lparr>status := Some v, last_update_at := Some now\<rparr> else h) rows)),
       error = None\<rparr>,
      map (\<lambda>h. if id_h h = i then h\<lparr>status := Some v, last_update_at := Some now\<rparr> else h) rows)"
  by (simp add: backend_update_def Let_def)

lemma updated_rows:
  assumes "x \<in> set (map (\<lambda>h. if id_h h = i then h\<lparr>status := Some v, last_update_at := Some now\<rparr> else h) rows)"
    and "id_h x = i"
  shows "status x = Some v \<and> last_update_at x = Some now"
proof -
  from assms(1) obtain y where y: "y \<in> set rows"
    "x = (if id_h y = i then y\<lparr>status := Some v, last_update_at := Some now\<rparr> else y)"
    by auto
  show ?thesis
  proof (cases "id_h y = i")
    case True
    with y(2) show ?thesis by simp
  next
    case False
    with y(2) have "x = y" by simp
    with False assms(2) show ?thesis by simp
  qed
qed

lemma updated_rows_nonempty:
  assumes "y \<in> set rows" "id_h y = i"
  shows "filter (\<lambda>h. id_h h = i)
           (map (\<lambda>h. if id_h h = i then h\<lparr>status := Some v, last_update_at := Some now\<rparr> else h) rows) \<noteq> []"
proof -
  let ?f = "\<lambda>h. if id_h h = i then h\<lparr>status := Some v, last_update_at := Some now\<rparr> else h"
  from assms(1) have "?f y \<in> set (map ?f rows)" unfolding set_map by (rule imageI)
  moreover from assms(2) have "id_h (?f y) = i" by simp
  ultimately show ?thesis unfolding filter_empty_conv by blast
qed

lemma backend_single_row:
  assumes "error (backend_single i rows) = None"
  shows "\<exists>r\<in>set rows. id_h r = i \<and> data (backend_single i rows) = Some r"
proof -
  from assms obtain r where f: "filter (\<lambda>h. id_h h = i) rows = [r]"
    by (cases "filter (\<lambda>h. id_h h = i) rows"; cases "tl (filter (\<lambda>h. id_h h = i) rows)")
       (auto simp: backend_single_def)
  then have "r \<in> set (filter (\<lambda>h. id_h h = i) rows)" by simp
  then have "r \<in> set rows" "id_h r = i" by simp_all
  moreover from f have "data (backend_single i rows) = Some r" by (simp add: backend_single_def)
  ultimately show ?thesis by blast
qed

lemma load_handoff:
  "handoff_d (fst (load ident st sess hR uR)) = handoff_d st
   \<or> (error hR = None \<and> handoff_d (fst (load ident st sess hR uR)) = data hR)"
  by (simp add: load_def Let_def split: option.splits)

lemma markResolved_handoff:
  assumes "handoff_d st = Some h" "id_h h \<noteq> []" "error updR = None" "data updR = Some (u # us)"
  shows "snd (markResolved ident st t updR sess hR uR) \<noteq> []"
    and "handoff_d (fst (markResolved ident st t updR sess hR uR))
           = Some (h\<lparr>status := status u, last_update_at := last_update_at u\<rparr>)
         \<or> (error hR = None \<and> handoff_d (fst (markResolved ident st t updR sess hR uR)) = data hR)"
proof -
  let ?st3 = "st\<lparr>toast_d := None, errorMsg_d := None, resolving_d := True,
                 handoff_d := Some (h\<lparr>status := status u, last_update_at := last_update_at u\<rparr>),
                 toast_d := Some resolvedToast\<rparr>"
  have m: "markResolved ident st t updR sess hR uR
        = ((fst (load ident ?st3 sess hR uR))\<lparr>resolving_d := False\<rparr>,
           UpdateHandoff (id_h h) ''resolved'' (Instant t) [''id'', ''status'', ''last_update_at'']
             # snd (load ident ?st3 sess hR uR))"
    using assms by (simp add: markResolved_def Let_def split_beta)
  show "snd (markResolved ident st t updR sess hR uR) \<noteq> []" unfolding m by simp
  from load_handoff [of ident ?st3 sess hR uR]
  show "handoff_d (fst (markResolved ident st t updR sess hR uR))
           = Some (h\<lparr>status := status u, last_update_at := last_update_at u\<rparr>)
         \<or> (error hR = None \<and> handoff_d (fst (markResolved ident st t updR sess hR uR)) = data hR)"
    unfolding m by simp
qed

lemma resolve_on_screen:
  assumes en: "\<not> resolveDisabled st" and h: "handoff_d st = Some h" and nonempty: "id_h h \<noteq> []"
    and ident: "ident = Some (id_h h)" and row: "y \<in> set rows" "id_h y = id_h h"
  shows "\<exists>h'. handoff_d (fst (fst (resolveOnBackend True None rows ident st t sess uR))) = Some h'
           \<and> status h' = Some ''resolved'' \<and> last_update_at h' = Some (Instant t)"
    and "\<forall>r\<in>set (snd (resolveOnBackend True None rows ident st t sess uR)).
           id_h r = id_h h \<longrightarrow> status r = Some ''resolved'' \<and> last_update_at r = Some (Instant t)"
proof -
  define rows' where "rows' = map (\<lambda>r. if id_h r = id_h h
      then r\<lparr>status := Some ''resolved'', last_update_at := Some (Instant t)\<rparr> else r) rows"
  define updR :: "handoff list reply"
    where "updR = \<lparr>data = Some (filter (\<lambda>r. id_h r = id_h h) rows'), error = None\<rparr>"
  have b: "backend_update True None (id_h h) ''resolved'' (Instant t) rows = (updR, rows')"
    unfolding updR_def rows'_def by (rule backend_update_allowed)
  have upd: "status x = Some ''resolved'' \<and> last_update_at x = Some (Instant t)"
    if "x \<in> set rows'" "id_h x = id_h h" for x
    using that unfolding rows'_def by (rule updated_rows)
  have "filter (\<lambda>r. id_h r = id_h h) rows' \<noteq> []"
    unfolding rows'_def by (rule updated_rows_nonempty [OF row])
  then obtain u us where f: "filter (\<lambda>r. id_h r = id_h h) rows' = u # us"
    by (cases "filter (\<lambda>r. id_h r = id_h h) rows'") blast+
  then have "u \<in> set (filter (\<lambda>r. id_h r = id_h h) rows')" by simp
  then have "u \<in> set rows'" "id_h u = id_h h" by simp_all
  from upd [OF this] have u: "status u = Some ''resolved''" "last_update_at u = Some (Instant t)"
    by blast+
  have d: "data updR = Some (u # us)" and e: "error updR = None"
    unfolding updR_def using f by simp_all
  let ?hR = "backend_single (id_h h) rows'"
  let ?out = "markResolved ident st t updR sess ?hR uR"
  from nonempty ident have od: "orDefault ident [] = id_h h" by (simp add: orDefault_def)
  have res: "resolveOnBackend True None rows ident st t sess uR
             = (?out, if snd ?out = [] then rows else rows')"
    using en h od by (simp add: resolveOnBackend_def b clickMarkResolved_def Let_def)
  note mh = markResolved_handoff [OF h nonempty e d, of ident t sess ?hR uR]
  from mh(1) have rows_out: "snd (resolveOnBackend True None rows ident st t sess uR) = rows'"
    unfolding res by simp
  show "\<forall>r\<in>set (snd (resolveOnBackend True None rows ident st t sess uR)).
           id_h r = id_h h \<longrightarrow> status r = Some ''resolved'' \<and> last_update_at r = Some (Instant t)"
    unfolding rows_out using upd by blast
  from mh(2) show "\<exists>h'. handoff_d (fst (fst (resolveOnBackend True None rows ident st t sess uR))) = Some h'
           \<and> status h' = Some ''resolved'' \<and> last_update_at h' = Some (Instant t)"
  proof
    assume "handoff_d (fst ?out) = Some (h\<lparr>status := status u, last_update_at := last_update_at u\<rparr>)"
    with u show ?thesis unfolding res by simp
  next
    assume a: "error ?hR = None \<and> handoff_d (fst ?out) = data ?hR"
    then obtain r where r: "r \<in> set rows'" "id_h r = id_h h" "data ?hR = Some r"
      using backend_single_row [of "id_h h" rows'] by blast
    from upd [OF r(1,2)] a r(3) show ?thesis unfolding res by simp
  qed
qed

lemma resolved_is_disabled:
  assumes "handoff_d st = Some h" "status h = Some ''resolved''"
  shows "resolveDisabled st"
    and "clickMarkResolved ident st t updR sess hR uR = (st, [])"
proof -
  have "isResolvedStatus_detail (Some ''resolved'')" by code_simp
  with assms show "resolveDisabled st" by (simp add: resolveDisabled_def)
  then show "clickMarkResolved ident st t updR sess hR uR = (st, [])"
    by (simp add: clickMarkResolved_def)
qed

text \<open>
  C4 at its failing input: the server-side resolve handler, called with a valid session for the
  open handoff \<open>b\<close>, which has no last-update timestamp. The handler answers ok; afterwards the
  status of \<open>b\<close> is \<open>closed\<close>, not \<open>resolved\<close>, its last-update timestamp is still absent,
  and the detail screen does not hold it resolved, so the screen's button stays enabled. A second
  call is answered ok as well and adds a second audit row. (The screen's own operation does what
  the claim says: \<open>resolve_on_screen\<close> and \<open>resolved_is_disabled\<close>.)
\<close>

theorem server_resolve_not_resolved:
  "map (\<lambda>h. (id_h h, status h, last_update_at h)) (handoffs_tbl resolveDb)
     = [(''a'', Some ''resolved'', Some (Instant 50)), (''b'', Some ''open'', None),
        (''c'', None, Some (Instant 30))]
   \<and> fst (POST_resolve resolveGetUser None None resolveRequest resolveDb) = respond 200 OkBody
   \<and> map (\<lambda>h. (id_h h, status h, last_update_at h))
        (handoffs_tbl (snd (POST_resolve resolveGetUser None None resolveRequest resolveDb)))
     = [(''a'', Some ''resolved'', Some (Instant 50)), (''b'', Some ''closed'', None),
        (''c'', None, Some (Instant 30))]
   \<and> isResolvedStatus_detail (Some ''closed'') = False
   \<and> fst (POST_resolve resolveGetUser None None resolveRequest
            (snd (POST_resolve resolveGetUser None None resolveRequest resolveDb)))
       = respond 200 OkBody
   \<and> map message
        (handoff_updates_tbl
          (snd (POST_resolve resolveGetUser None None resolveRequest
                 (snd (POST_resolve resolveGetUser None None resolveRequest resolveDb)))))
     = [''SYSTEM: RESOLVED by rn@ward.example'', ''SYSTEM: RESOLVED by rn@ward.example'']"
proof -
  have tok: "bearerToken ''Bearer tok-1'' = Some ''tok-1''"
    by code_simp
  have run: "POST_resolve resolveGetUser None None resolveRequest d
       = (respond 200 OkBody,
          d\<lparr>handoffs_tbl := map (\<lambda>h. if id_h h = ''b'' then h\<lparr>status := Some ''closed''\<rparr> else h)
                               (handoffs_tbl d),
            handoff_updates_tbl := handoff_updates_tbl d @
              [\<lparr>handoff_id = ''b'', author_user_id = None,
                author_display_name_snapshot = Some ''system'', source = ''system'',
                message = ''SYSTEM: RESOLVED by rn@ward.example''\<rparr>]\<rparr>)" for d
    by (simp add: POST_resolve_def tok orDefault_def resolveGetUser_def resolveRequest_def
        resolveUser_def update_status_def insert_update_def Let_def)
  have "isResolvedStatus_detail (Some ''closed'') = False" by code_simp
  then show ?thesis
    by (simp add: run resolveDb_def feedExample_def)
qed

theorem server_resolve_not_resolved_witness:
  "http_status (fst (POST_resolve resolveGetUser None None resolveRequest resolveDb)) = 200
   \<and> map (\<lambda>h. (id_h h, status h, last_update_at h))
        (handoffs_tbl (snd (POST_resolve resolveGetUser None None resolveRequest resolveDb)))
     = [(''a'', Some ''resolved'', Some (Instant 50)), (''b'', Some ''closed'', None),
        (''c'', None, Some (Instant 30))]"
  using server_resolve_not_resolved by (simp add: respond_def)

end
